theory Spec2Isabelle
  imports Complex_Main
begin

section \<open>Python values: exceptions and list indexing\<close>

text \<open>
  The exceptions the modelled code can raise. \<open>AssertionError\<close>, \<open>IndexError\<close> and
  \<open>KeyError\<close> are Python's own. \<open>NoneOperand\<close> stands for whatever Python raises when a
  \<open>None\<close> slot of a list is used as a tensor. \<open>MXNetError\<close> is an error raised by an
  operator of the tensor library (shape mismatch and the like).
\<close>

datatype error = AssertionError | IndexError | KeyError | NoneOperand | MXNetError string

definition bind_err :: "error + 'a \<Rightarrow> ('a \<Rightarrow> error + 'b) \<Rightarrow> error + 'b" where
  "bind_err m f = (case m of Inl e \<Rightarrow> Inl e | Inr v \<Rightarrow> f v)"

text \<open>\<open>xs[i]\<close> and \<open>xs[i] = v\<close> on a Python list: a negative index counts from the end,
  an index outside the list raises \<open>IndexError\<close>.\<close>

definition py_index :: "nat \<Rightarrow> int \<Rightarrow> nat option" where
  "py_index n i =
     (let k = (if i < 0 then i + int n else i)
      in if k < 0 \<or> int n \<le> k then None else Some (nat k))"

definition getitem :: "'a list \<Rightarrow> int \<Rightarrow> error + 'a" where
  "getitem xs i = (case py_index (length xs) i of None \<Rightarrow> Inl IndexError | Some k \<Rightarrow> Inr (xs ! k))"

definition setitem :: "'a list \<Rightarrow> int \<Rightarrow> 'a \<Rightarrow> error + 'a list" where
  "setitem xs i v =
     (case py_index (length xs) i of None \<Rightarrow> Inl IndexError | Some k \<Rightarrow> Inr (xs[k := v]))"

section \<open>Network description\<close>

text \<open>
  The configuration of a \<open>nn.Conv2D\<close>. Gluon turns an integer \<open>kernel_size\<close>, \<open>strides\<close>,
  \<open>padding\<close> or \<open>dilation\<close> into a pair (\<open>tup\<close>); the defaults are strides \<open>(1, 1)\<close>,
  padding \<open>(0, 0)\<close> and dilation \<open>(1, 1)\<close>. Weight initialisers are not modelled.
\<close>

record conv_cfg =
  channels :: int
  kernel_size :: "int \<times> int"
  strides :: "int \<times> int"
  padding :: "int \<times> int"
  dilation :: "int \<times> int"

definition tup :: "int \<Rightarrow> int \<times> int" where
  "tup k = (k, k)"

datatype gluon_block = Conv2D conv_cfg | BatchNorm | Activation string

text \<open>
  A layer is a block object: its identity (the number of objects created before it) and
  what it is. The identity is what tells the parameters of two layers of the same
  configuration apart. A \<open>HybridSequential\<close> is the list of its children.
\<close>

type_synonym layer = "nat \<times> gluon_block"
type_synonym HybridSequential = "layer list"

text \<open>\<open>seq.add(block)\<close>: the block is created (it takes the next identity) and appended.
  The state of a constructor is the pair of what is built so far and the number of
  objects (blocks and parameters) created so far.\<close>

definition add :: "gluon_block \<Rightarrow> HybridSequential \<times> nat \<Rightarrow> HybridSequential \<times> nat" where
  "add b s = (case s of (sq, n) \<Rightarrow> (sq @ [(n, b)], Suc n))"

text \<open>The recurring three statements: add a convolution, add a \<open>BatchNorm\<close> if
  \<open>batch_norm\<close>, add a \<open>relu\<close> activation.\<close>

definition add_conv_relu ::
  "conv_cfg \<Rightarrow> bool \<Rightarrow> HybridSequential \<times> nat \<Rightarrow> HybridSequential \<times> nat" where
  "add_conv_relu cfg batch_norm s =
     add (Activation ''relu'') ((if batch_norm then add BatchNorm else id) (add (Conv2D cfg) s))"

record Normalize =
  n_channel :: int
  initial :: rat
  eps :: rat
  scale :: nat

text \<open>\<open>Normalize.__init__\<close>: \<open>eps\<close> defaults to \<open>1e-5\<close>; the scale parameter is created.\<close>

definition Normalize_init :: "int \<Rightarrow> rat \<Rightarrow> nat \<Rightarrow> Normalize \<times> nat" where
  "Normalize_init n_chan init n =
     (\<lparr>n_channel = n_chan, initial = init, eps = 1 / 100000, scale = n\<rparr>, Suc n)"

record VGGAtrousBase =
  init_scale :: nat
  stages :: "HybridSequential list"
  norm4 :: Normalize
  norm5 :: Normalize

record VGGAtrousExtractor = VGGAtrousBase +
  extras :: "HybridSequential list"
  last_layer_trans :: HybridSequential
  transitions :: "HybridSequential list"
  fusions :: "HybridSequential list"

section \<open>Constructors\<close>

definition stage_conv :: "int \<Rightarrow> conv_cfg" where
  "stage_conv f = \<lparr>channels = f, kernel_size = tup 3, strides = (1, 1), padding = tup 1,
                   dilation = (1, 1)\<rparr>"

text \<open>\<open>for l, f in zip(layers, filters)\<close>: one stage of \<open>l\<close> convolutions per pair.\<close>

fun build_stages ::
  "(int \<times> int) list \<Rightarrow> bool \<Rightarrow> HybridSequential list \<times> nat \<Rightarrow> HybridSequential list \<times> nat" where
  "build_stages [] batch_norm s = s"
| "build_stages ((l, f) # rest) batch_norm (sts, n) =
     (case (add_conv_relu (stage_conv f) batch_norm ^^ nat l) ([], n) of
        (stage, n') \<Rightarrow> build_stages rest batch_norm (sts @ [stage], n'))"

definition dilated_stage :: "bool \<Rightarrow> nat \<Rightarrow> HybridSequential \<times> nat" where
  "dilated_stage batch_norm n =
     add_conv_relu \<lparr>channels = 1024, kernel_size = tup 1, strides = (1, 1), padding = (0, 0),
                    dilation = (1, 1)\<rparr> batch_norm
       (add_conv_relu \<lparr>channels = 1024, kernel_size = tup 3, strides = (1, 1), padding = tup 6,
                       dilation = tup 6\<rparr> batch_norm ([], n))"

text \<open>
  \<open>VGGAtrousBase.__init__\<close>. \<open>super().__init__\<close> creates neither a layer nor a parameter.
  The result is paired with the number of objects created when the constructor returns
  or raises.
\<close>

definition VGGAtrousBase_init ::
  "int list \<Rightarrow> int list \<Rightarrow> bool \<Rightarrow> nat \<Rightarrow> (error + VGGAtrousBase) \<times> nat" where
  "VGGAtrousBase_init layers filters batch_norm n0 =
     (if length layers \<noteq> length filters then (Inl AssertionError, n0)
      else
        case build_stages (zip layers filters) batch_norm ([], Suc n0) of (sts, n1) \<Rightarrow>
        case dilated_stage batch_norm n1 of (dil, n2) \<Rightarrow>
          (case getitem filters 3 of
             Inl e \<Rightarrow> (Inl e, n2)
           | Inr f3 \<Rightarrow>
               (case Normalize_init f3 20 n2 of (nm4, n3) \<Rightarrow>
                case Normalize_init 1024 8 n3 of (nm5, n4) \<Rightarrow>
                  (Inr \<lparr>init_scale = n0, stages = sts @ [dil], norm4 = nm4, norm5 = nm5\<rparr>,
                   n4))))"

definition extra_conv :: "int \<times> int \<times> int \<times> int \<Rightarrow> conv_cfg" where
  "extra_conv c = (case c of (f, k, s, p) \<Rightarrow>
     \<lparr>channels = f, kernel_size = tup k, strides = tup s, padding = tup p, dilation = (1, 1)\<rparr>)"

text \<open>\<open>for i, config in enumerate(extras)\<close>, with its inner \<open>for f, k, s, p in config\<close>.\<close>

fun build_extra ::
  "(int \<times> int \<times> int \<times> int) list \<Rightarrow> bool \<Rightarrow> HybridSequential \<times> nat \<Rightarrow> HybridSequential \<times> nat" where
  "build_extra [] batch_norm s = s"
| "build_extra (c # config) batch_norm s =
     build_extra config batch_norm (add_conv_relu (extra_conv c) batch_norm s)"

fun build_extras ::
  "(int \<times> int \<times> int \<times> int) list list \<Rightarrow> bool \<Rightarrow> HybridSequential list \<times> nat
     \<Rightarrow> HybridSequential list \<times> nat" where
  "build_extras [] batch_norm s = s"
| "build_extras (config # rest) batch_norm (exs, n) =
     (case build_extra config batch_norm ([], n) of
        (extra, n') \<Rightarrow> build_extras rest batch_norm (exs @ [extra], n'))"

definition trans_conv :: conv_cfg where
  "trans_conv = \<lparr>channels = 256, kernel_size = (3, 3), strides = (1, 1), padding = tup 1,
                 dilation = (1, 1)\<rparr>"

text \<open>One iteration of the loop that builds \<open>self.transitions\<close>.\<close>

definition add_transition :: "bool \<Rightarrow> HybridSequential list \<times> nat \<Rightarrow> HybridSequential list \<times> nat" where
  "add_transition batch_norm s = (case s of (trs, n) \<Rightarrow>
     case (if batch_norm then add BatchNorm else id)
            (add (Conv2D trans_conv)
              (add (Activation ''relu'')
                ((if batch_norm then add BatchNorm else id)
                  (add (Conv2D trans_conv) ([], n))))) of
       (transition, n') \<Rightarrow> (trs @ [transition], n'))"

text \<open>One iteration of the loop that builds \<open>self.fusions\<close>.\<close>

definition add_fusion :: "bool \<Rightarrow> HybridSequential list \<times> nat \<Rightarrow> HybridSequential list \<times> nat" where
  "add_fusion batch_norm s = (case s of (fus, n) \<Rightarrow>
     case add_conv_relu trans_conv batch_norm ([], n) of
       (fusion, n') \<Rightarrow> (fus @ [fusion], n'))"

definition VGGAtrousExtractor_init ::
  "int list \<Rightarrow> int list \<Rightarrow> (int \<times> int \<times> int \<times> int) list list \<Rightarrow> bool \<Rightarrow> nat
     \<Rightarrow> (error + VGGAtrousExtractor) \<times> nat" where
  "VGGAtrousExtractor_init layers filters extras_cfg batch_norm n0 =
     (case VGGAtrousBase_init layers filters batch_norm n0 of
        (Inl e, n) \<Rightarrow> (Inl e, n)
      | (Inr base, n1) \<Rightarrow>
          case build_extras extras_cfg batch_norm ([], n1) of (exs, n2) \<Rightarrow>
          case (add_conv_relu trans_conv batch_norm ^^ 3) ([], n2) of (llt, n3) \<Rightarrow>
          case (add_transition batch_norm ^^ 3) ([], n3) of (trs, n4) \<Rightarrow>
          case (add_fusion batch_norm ^^ 3) ([], n4) of (fus, n5) \<Rightarrow>
            (Inr \<lparr>init_scale = init_scale base, stages = stages base, norm4 = norm4 base,
                  norm5 = norm5 base, extras = exs, last_layer_trans = llt,
                  transitions = trs, fusions = fus\<rparr>, n5))"

text \<open>The preset tables.\<close>

definition vgg_spec :: "int \<rightharpoonup> int list \<times> int list" where
  "vgg_spec = [11 \<mapsto> ([1, 1, 2, 2, 2], [64, 128, 256, 512, 512]),
               13 \<mapsto> ([2, 2, 2, 2, 2], [64, 128, 256, 512, 512]),
               16 \<mapsto> ([2, 2, 3, 3, 3], [64, 128, 256, 512, 512]),
               19 \<mapsto> ([2, 2, 4, 4, 4], [64, 128, 256, 512, 512])]"

definition extra_spec :: "int \<rightharpoonup> (int \<times> int \<times> int \<times> int) list list" where
  "extra_spec = [320 \<mapsto> [[(256, 1, 1, 0), (512, 3, 2, 1)], [(128, 1, 1, 0), (256, 3, 2, 1)]],
                 512 \<mapsto> [[(256, 1, 1, 0), (512, 3, 2, 1)], [(128, 1, 1, 0), (256, 3, 2, 1)]]]"

text \<open>\<open>get_vgg_atrous_extractor\<close> with \<open>pretrained=False\<close> (loading weights is left to the
  model store); the only keyword argument passed on is \<open>batch_norm\<close>.\<close>

definition get_vgg_atrous_extractor ::
  "int \<Rightarrow> int \<Rightarrow> bool \<Rightarrow> nat \<Rightarrow> (error + VGGAtrousExtractor) \<times> nat" where
  "get_vgg_atrous_extractor num_layers im_size batch_norm n =
     (case vgg_spec num_layers of
        None \<Rightarrow> (Inl KeyError, n)
      | Some (layers, filters) \<Rightarrow>
          (case extra_spec im_size of
             None \<Rightarrow> (Inl KeyError, n)
           | Some extras_cfg \<Rightarrow> VGGAtrousExtractor_init layers filters extras_cfg batch_norm n))"

definition vgg16_atrous_320 :: "bool \<Rightarrow> nat \<Rightarrow> (error + VGGAtrousExtractor) \<times> nat" where
  "vgg16_atrous_320 batch_norm n = get_vgg_atrous_extractor 16 320 batch_norm n"

definition vgg16_atrous_512 :: "bool \<Rightarrow> nat \<Rightarrow> (error + VGGAtrousExtractor) \<times> nat" where
  "vgg16_atrous_512 batch_norm n = get_vgg_atrous_extractor 16 512 batch_norm n"

section \<open>The tensor engine\<close>

text \<open>
  \<open>hybrid_forward\<close> receives the operator namespace \<open>F\<close> (imperative arrays or symbols).
  The model takes it as a record of the operators the code calls, over any tensor type;
  each may raise. \<open>Conv2D_forward\<close> and \<open>BatchNorm_forward\<close> are Gluon's layers applied
  with the parameters of the layer of the given identity; \<open>param_data\<close> reads a parameter
  created by this file (\<open>init_scale\<close>, a \<open>Normalize\<close> scale).
\<close>

record pool_cfg =
  pool_type :: string
  kernel :: "int \<times> int"
  stride :: "int \<times> int"
  pad :: "int \<times> int"
  pooling_convention :: string

record 't engine =
  broadcast_mul :: "'t \<Rightarrow> 't \<Rightarrow> error + 't"
  L2Normalization :: "'t \<Rightarrow> string \<Rightarrow> rat \<Rightarrow> error + 't"
  Pooling :: "'t \<Rightarrow> pool_cfg \<Rightarrow> error + 't"
  F_Activation :: "'t \<Rightarrow> string \<Rightarrow> error + 't"
  elemwise_add :: "'t \<Rightarrow> 't \<Rightarrow> error + 't"
  repeat :: "'t \<Rightarrow> int \<Rightarrow> int \<Rightarrow> error + 't"
  Conv2D_forward :: "nat \<Rightarrow> conv_cfg \<Rightarrow> 't \<Rightarrow> error + 't"
  BatchNorm_forward :: "nat \<Rightarrow> 't \<Rightarrow> error + 't"
  param_data :: "nat \<Rightarrow> 't"

section \<open>Forward pass\<close>

text \<open>\<open>_upsample(x, stride)\<close>, over the tensor's \<open>repeat\<close> method.\<close>

definition upsample :: "('t \<Rightarrow> int \<Rightarrow> int \<Rightarrow> error + 't) \<Rightarrow> 't \<Rightarrow> int \<Rightarrow> error + 't" where
  "upsample rep x strd = bind_err (rep x (- 1) strd) (\<lambda>y. rep y (- 2) strd)"

definition Normalize_forward :: "'t engine \<Rightarrow> Normalize \<Rightarrow> 't \<Rightarrow> error + 't" where
  "Normalize_forward F nm x =
     bind_err (L2Normalization F x ''channel'' (eps nm))
       (\<lambda>y. broadcast_mul F y (param_data F (scale nm)))"

definition layer_forward :: "'t engine \<Rightarrow> layer \<Rightarrow> 't \<Rightarrow> error + 't" where
  "layer_forward F l x =
     (case l of
        (i, Conv2D cfg) \<Rightarrow> Conv2D_forward F i cfg x
      | (i, BatchNorm) \<Rightarrow> BatchNorm_forward F i x
      | (i, Activation act) \<Rightarrow> F_Activation F x act)"

text \<open>Calling a \<open>HybridSequential\<close>: its children in order.\<close>

fun seq_forward :: "'t engine \<Rightarrow> HybridSequential \<Rightarrow> 't \<Rightarrow> error + 't" where
  "seq_forward F [] x = Inr x"
| "seq_forward F (l # ls) x = bind_err (layer_forward F l x) (seq_forward F ls)"

definition pool2 :: pool_cfg where
  "pool2 = \<lparr>pool_type = ''max'', kernel = (2, 2), stride = (2, 2), pad = (0, 0),
            pooling_convention = ''full''\<rparr>"

definition pool3 :: pool_cfg where
  "pool3 = \<lparr>pool_type = ''max'', kernel = (3, 3), stride = (1, 1), pad = (1, 1),
            pooling_convention = ''full''\<rparr>"

text \<open>\<open>for stage in self.stages[:3]\<close>: the stage, then the pooling.\<close>

fun stages_loop :: "'t engine \<Rightarrow> HybridSequential list \<Rightarrow> 't \<Rightarrow> error + 't" where
  "stages_loop F [] x = Inr x"
| "stages_loop F (stage # rest) x =
     bind_err (seq_forward F stage x) (\<lambda>x.
     bind_err (Pooling F x pool2) (\<lambda>x.
     stages_loop F rest x))"

text \<open>\<open>for extra in self.extras\<close>: the running tensor and the list grown so far.\<close>

fun extras_loop ::
  "'t engine \<Rightarrow> HybridSequential list \<Rightarrow> 't \<Rightarrow> 't list \<Rightarrow> error + 't list" where
  "extras_loop F [] x arm = Inr arm"
| "extras_loop F (extra # rest) x arm =
     bind_err (seq_forward F extra x) (\<lambda>x. extras_loop F rest x (arm @ [x]))"

text \<open>A slot of \<open>ODM_features\<close> read as a tensor.\<close>

definition tensor_of :: "'t option \<Rightarrow> error + 't" where
  "tensor_of v = (case v of None \<Rightarrow> Inl NoneOperand | Some t \<Rightarrow> Inr t)"

text \<open>The value one iteration of the fusion loop computes from its operands once the
  transition branch is chosen: \<open>relu(_upsample(deep_fet) + transition(shallow_fet))\<close>.\<close>

definition ele_sum :: "'t engine \<Rightarrow> HybridSequential \<Rightarrow> 't \<Rightarrow> 't \<Rightarrow> error + 't" where
  "ele_sum F transition deep_fet shallow_fet =
     bind_err (upsample (repeat F) deep_fet 2) (\<lambda>upsampled_fet.
     bind_err (seq_forward F transition shallow_fet) (\<lambda>transition_fet.
     bind_err (elemwise_add F upsampled_fet transition_fet) (\<lambda>s.
     F_Activation F s ''relu'')))"

text \<open>\<open>for i in range(3, 0, -1)\<close>, given the values of \<open>i\<close> still to run.\<close>

fun fusion_loop ::
  "'t engine \<Rightarrow> HybridSequential list \<Rightarrow> 't list \<Rightarrow> int list \<Rightarrow> 't option list
     \<Rightarrow> error + 't option list" where
  "fusion_loop F trs arm [] odm = Inr odm"
| "fusion_loop F trs arm (i # rest) odm =
     bind_err (getitem odm i) (\<lambda>deep_slot.
     bind_err (getitem arm (i - 1)) (\<lambda>shallow_fet.
     bind_err (tensor_of deep_slot) (\<lambda>deep_fet.
     bind_err (upsample (repeat F) deep_fet 2) (\<lambda>upsampled_fet.
     bind_err (getitem trs (i - 1)) (\<lambda>transition.
     bind_err (seq_forward F transition shallow_fet) (\<lambda>transition_fet.
     bind_err (elemwise_add F upsampled_fet transition_fet) (\<lambda>s.
     bind_err (F_Activation F s ''relu'') (\<lambda>fused.
     bind_err (setitem odm (i - 1) (Some fused)) (\<lambda>odm.
     fusion_loop F trs arm rest odm)))))))))"

text \<open>\<open>for i in range(3)\<close>: \<open>ODM_features[i] = self.fusions[i](ODM_features[i])\<close>.\<close>

fun fusions_loop ::
  "'t engine \<Rightarrow> HybridSequential list \<Rightarrow> int list \<Rightarrow> 't option list \<Rightarrow> error + 't option list" where
  "fusions_loop F fus [] odm = Inr odm"
| "fusions_loop F fus (i # rest) odm =
     bind_err (getitem fus i) (\<lambda>fusion.
     bind_err (getitem odm i) (\<lambda>slot.
     bind_err (tensor_of slot) (\<lambda>t.
     bind_err (seq_forward F fusion t) (\<lambda>fused.
     bind_err (setitem odm i (Some fused)) (\<lambda>odm.
     fusions_loop F fus rest odm)))))"

text \<open>The part of \<open>hybrid_forward\<close> after the extras loop: from \<open>ARM_features\<close> to
  \<open>ODM_features\<close>.\<close>

definition features_fusion ::
  "'t engine \<Rightarrow> VGGAtrousExtractor \<Rightarrow> 't list \<Rightarrow> error + 't option list" where
  "features_fusion F self arm =
     bind_err (getitem arm (- 1)) (\<lambda>deepest.
     bind_err (seq_forward F (last_layer_trans self) deepest) (\<lambda>p6.
     bind_err (setitem (replicate 4 None) (- 1) (Some p6)) (\<lambda>odm.
     bind_err (fusion_loop F (transitions self) arm [3, 2, 1] odm) (\<lambda>odm.
     fusions_loop F (fusions self) [0, 1, 2] odm))))"

text \<open>The part of \<open>hybrid_forward\<close> that fills \<open>ARM_features\<close>, from the scaled input.\<close>

definition arm_features :: "'t engine \<Rightarrow> VGGAtrousExtractor \<Rightarrow> 't \<Rightarrow> error + 't list" where
  "arm_features F self x =
     bind_err (stages_loop F (take 3 (stages self)) x) (\<lambda>x.
     bind_err (getitem (stages self) 3) (\<lambda>stage3.
     bind_err (seq_forward F stage3 x) (\<lambda>x.
     bind_err (Normalize_forward F (norm4 self) x) (\<lambda>n4.
     bind_err (Pooling F x pool2) (\<lambda>x.
     bind_err (getitem (stages self) 4) (\<lambda>stage4.
     bind_err (seq_forward F stage4 x) (\<lambda>x.
     bind_err (Pooling F x pool3) (\<lambda>x.
     bind_err (getitem (stages self) 5) (\<lambda>stage5.
     bind_err (seq_forward F stage5 x) (\<lambda>x.
     bind_err (Normalize_forward F (norm5 self) x) (\<lambda>n5.
     extras_loop F (extras self) x [n4, n5])))))))))))"

text \<open>\<open>VGGAtrousExtractor.hybrid_forward\<close>. The result is the dictionary \<open>outputs\<close>; a
  list slot holds \<open>None\<close> or a tensor.\<close>

definition hybrid_forward ::
  "'t engine \<Rightarrow> VGGAtrousExtractor \<Rightarrow> 't \<Rightarrow> error + (string \<rightharpoonup> 't option list)" where
  "hybrid_forward F self x =
     bind_err (broadcast_mul F x (param_data F (init_scale self))) (\<lambda>x.
     if length (stages self) \<noteq> 6 then Inl AssertionError
     else
       bind_err (arm_features F self x) (\<lambda>arm.
       bind_err (features_fusion F self arm) (\<lambda>odm.
       Inr [''ARM_features'' \<mapsto> map Some arm, ''ODM_features'' \<mapsto> odm])))"

section \<open>Two concrete tensor types\<close>

text \<open>
  Symbols: a tensor is the expression that computes it, so two tensors are equal only
  if they are computed the same way. No operator raises while the graph is built.
\<close>

datatype sym =
    Var string
  | Param nat
  | BroadcastMul sym sym
  | L2Norm sym string rat
  | Pool sym pool_cfg
  | Act sym string
  | Plus sym sym
  | Repeat sym int int
  | Conv nat conv_cfg sym
  | BN nat sym

definition sym_engine :: "sym engine" where
  "sym_engine =
     \<lparr>broadcast_mul = (\<lambda>a b. Inr (BroadcastMul a b)),
      L2Normalization = (\<lambda>a m e. Inr (L2Norm a m e)),
      Pooling = (\<lambda>a c. Inr (Pool a c)),
      F_Activation = (\<lambda>a act. Inr (Act a act)),
      elemwise_add = (\<lambda>a b. Inr (Plus a b)),
      repeat = (\<lambda>a ax r. Inr (Repeat a ax r)),
      Conv2D_forward = (\<lambda>i c a. Inr (Conv i c a)),
      BatchNorm_forward = (\<lambda>i a. Inr (BN i a)),
      param_data = Param\<rparr>"

text \<open>
  Modelled from the spec: the tensor library's \<open>repeat\<close> is not part of the repository.
  On an array it repeats each element \<open>repeats\<close> times along \<open>axis\<close> (the upsampling
  "replicates each pixel ... along height and width"). A 4-dimensional array is a nested
  list indexed by batch, channel, row and column.
\<close>

definition repeat_list :: "nat \<Rightarrow> 'a list \<Rightarrow> 'a list" where
  "repeat_list r xs = concat (map (replicate r) xs)"

definition nd_repeat ::
  "'a list list list list \<Rightarrow> int \<Rightarrow> int \<Rightarrow> error + 'a list list list list" where
  "nd_repeat x axis repeats =
     (let r = nat repeats; a = (if axis < 0 then axis + 4 else axis)
      in if a = 0 then Inr (repeat_list r x)
         else if a = 1 then Inr (map (repeat_list r) x)
         else if a = 2 then Inr (map (map (repeat_list r)) x)
         else if a = 3 then Inr (map (map (map (repeat_list r))) x)
         else Inl (MXNetError ''axis''))"

definition has_shape :: "'a list list list list \<Rightarrow> nat \<Rightarrow> nat \<Rightarrow> nat \<Rightarrow> nat \<Rightarrow> bool" where
  "has_shape x N C H W =
     (length x = N \<and> list_all (\<lambda>img. length img = C \<and>
        list_all (\<lambda>ch. length ch = H \<and> list_all (\<lambda>row. length row = W) ch) img) x)"

section \<open>Engines used to state and test the claims\<close>

text \<open>An engine none of whose operators raises, as when \<open>F\<close> builds a symbolic graph.\<close>

definition total_engine :: "'t engine \<Rightarrow> bool" where
  "total_engine F \<longleftrightarrow>
     (\<forall>a b. \<exists>c. broadcast_mul F a b = Inr c)
   \<and> (\<forall>a m e. \<exists>c. L2Normalization F a m e = Inr c)
   \<and> (\<forall>a p. \<exists>c. Pooling F a p = Inr c)
   \<and> (\<forall>a act. \<exists>c. F_Activation F a act = Inr c)
   \<and> (\<forall>a b. \<exists>c. elemwise_add F a b = Inr c)
   \<and> (\<forall>a ax r. \<exists>c. repeat F a ax r = Inr c)
   \<and> (\<forall>i cfg a. \<exists>c. Conv2D_forward F i cfg a = Inr c)
   \<and> (\<forall>i a. \<exists>c. BatchNorm_forward F i a = Inr c)"

text \<open>An engine whose \<open>broadcast_mul\<close> rejects its operands, as the imperative engine does
  for an input that cannot be broadcast against \<open>init_scale\<close> of shape \<open>(1, 3, 1, 1)\<close>.\<close>

definition rejecting_engine :: "sym engine" where
  "rejecting_engine = sym_engine\<lparr>broadcast_mul := (\<lambda>a b. Inl (MXNetError ''broadcast_mul''))\<rparr>"

text \<open>The blocks added by a convolution, an optional \<open>BatchNorm\<close> and a \<open>relu\<close>.\<close>

definition conv_unit :: "bool \<Rightarrow> conv_cfg \<Rightarrow> gluon_block list" where
  "conv_unit bn c = (if bn then [Conv2D c, BatchNorm, Activation ''relu'']
                     else [Conv2D c, Activation ''relu''])"

section \<open>Auxiliary facts\<close>

subsection \<open>Errors and indexing\<close>

lemma bind_err_Inl [simp]: "bind_err (Inl e) f = Inl e"
  by (simp add: bind_err_def)

lemma bind_err_Inr [simp]: "bind_err (Inr v) f = f v"
  by (simp add: bind_err_def)

lemma bind_err_eq_Inr: "bind_err m f = Inr y \<longleftrightarrow> (\<exists>v. m = Inr v \<and> f v = Inr y)"
  by (cases m) simp_all

lemma getitem_nonneg:
  "0 \<le> i \<Longrightarrow> getitem xs i = (if nat i < length xs then Inr (xs ! nat i) else Inl IndexError)"
  by (auto simp: getitem_def py_index_def)

lemma getitem_last: "getitem xs (- 1) = (if xs = [] then Inl IndexError else Inr (last xs))"
  by (cases xs rule: rev_cases) (auto simp: getitem_def py_index_def nat_add_distrib)

lemma setitem_nonneg:
  "0 \<le> i \<Longrightarrow> setitem xs i v = (if nat i < length xs then Inr (xs[nat i := v]) else Inl IndexError)"
  by (auto simp: setitem_def py_index_def)

lemma setitem_slots: "setitem (replicate 4 None) (- 1) v = Inr [None, None, None, v]"
  by (simp add: setitem_def py_index_def numeral_eq_Suc)

lemma tensor_of_eq_Inr: "tensor_of v = Inr t \<longleftrightarrow> v = Some t"
  by (cases v) (simp_all add: tensor_of_def)

lemma ele_sum_chain:
  "upsample (repeat F) deep 2 = Inr u \<Longrightarrow> seq_forward F tr shallow = Inr t
   \<Longrightarrow> elemwise_add F u t = Inr s \<Longrightarrow> F_Activation F s ''relu'' = Inr p
   \<Longrightarrow> ele_sum F tr deep shallow = Inr p"
  by (simp add: ele_sum_def)

lemma fusion_loop_Inr:
  assumes "fusion_loop F trs arm [3, 2, 1] [None, None, None, Some p3] = Inr odm"
  shows "\<exists>p2 p1 p0. 3 \<le> length arm \<and> 3 \<le> length trs
          \<and> ele_sum F (trs ! 2) p3 (arm ! 2) = Inr p2
          \<and> ele_sum F (trs ! 1) p2 (arm ! 1) = Inr p1
          \<and> ele_sum F (trs ! 0) p1 (arm ! 0) = Inr p0
          \<and> odm = [Some p0, Some p1, Some p2, Some p3]"
  using assms
  by (auto simp: bind_err_eq_Inr getitem_nonneg setitem_nonneg tensor_of_eq_Inr ele_sum_chain
           split: if_splits)

lemma fusions_loop_Inr:
  assumes "fusions_loop F fus [0, 1, 2] [Some p0, Some p1, Some p2, Some p3] = Inr odm"
  shows "\<exists>f0 f1 f2. 3 \<le> length fus
          \<and> seq_forward F (fus ! 0) p0 = Inr f0
          \<and> seq_forward F (fus ! 1) p1 = Inr f1
          \<and> seq_forward F (fus ! 2) p2 = Inr f2
          \<and> odm = [Some f0, Some f1, Some f2, Some p3]"
  using assms
  by (auto simp: bind_err_eq_Inr getitem_nonneg setitem_nonneg tensor_of_eq_Inr
           split: if_splits)

subsection \<open>Constructors\<close>

lemma build_stages_length:
  "length (fst (build_stages zs bn (sts, n))) = length sts + length zs"
  by (induction zs arbitrary: sts n) (auto split: prod.splits)

lemma build_extras_length:
  "length (fst (build_extras cs bn (exs, n))) = length exs + length cs"
  by (induction cs arbitrary: exs n) (auto split: prod.splits)

lemma getitem_3: "getitem xs 3 = (if 3 < length xs then Inr (xs ! 3) else Inl IndexError)"
  by (simp add: getitem_nonneg)

lemma base_init_Inr:
  assumes "VGGAtrousBase_init layers filters bn n = (Inr b, n')"
  shows "length layers = length filters \<and> 3 < length filters
      \<and> init_scale b = n
      \<and> (\<exists>sts n1. build_stages (zip layers filters) bn ([], Suc n) = (sts, n1)
            \<and> length sts = length layers
            \<and> stages b = sts @ [fst (dilated_stage bn n1)])
      \<and> n_channel (norm4 b) = filters ! 3 \<and> initial (norm4 b) = 20
      \<and> n_channel (norm5 b) = 1024 \<and> initial (norm5 b) = 8
      \<and> scale (norm4 b) \<noteq> scale (norm5 b)"
proof -
  obtain sts n1 where st: "build_stages (zip layers filters) bn ([], Suc n) = (sts, n1)"
    by (cases "build_stages (zip layers filters) bn ([], Suc n)")
  have len: "length sts = length (zip layers filters)"
    using build_stages_length [of "zip layers filters" bn "[]" "Suc n"] st by simp
  show ?thesis
    using assms st len
    by (auto simp: VGGAtrousBase_init_def getitem_3 Normalize_init_def
             split: if_splits prod.splits sum.splits)
qed

lemma transitions_built:
  "fst ((add_transition bn ^^ 3) ([], n)) =
    (if bn then
       [[(n, Conv2D trans_conv), (n + 1, BatchNorm), (n + 2, Activation ''relu''),
         (n + 3, Conv2D trans_conv), (n + 4, BatchNorm)],
        [(n + 5, Conv2D trans_conv), (n + 6, BatchNorm), (n + 7, Activation ''relu''),
         (n + 8, Conv2D trans_conv), (n + 9, BatchNorm)],
        [(n + 10, Conv2D trans_conv), (n + 11, BatchNorm), (n + 12, Activation ''relu''),
         (n + 13, Conv2D trans_conv), (n + 14, BatchNorm)]]
     else
       [[(n, Conv2D trans_conv), (n + 1, Activation ''relu''), (n + 2, Conv2D trans_conv)],
        [(n + 3, Conv2D trans_conv), (n + 4, Activation ''relu''), (n + 5, Conv2D trans_conv)],
        [(n + 6, Conv2D trans_conv), (n + 7, Activation ''relu''), (n + 8, Conv2D trans_conv)]])"
  by (simp add: numeral_3_eq_3 add_transition_def add_def)

lemma fusions_built:
  "fst ((add_fusion bn ^^ 3) ([], n)) =
    (if bn then
       [[(n, Conv2D trans_conv), (n + 1, BatchNorm), (n + 2, Activation ''relu'')],
        [(n + 3, Conv2D trans_conv), (n + 4, BatchNorm), (n + 5, Activation ''relu'')],
        [(n + 6, Conv2D trans_conv), (n + 7, BatchNorm), (n + 8, Activation ''relu'')]]
     else
       [[(n, Conv2D trans_conv), (n + 1, Activation ''relu'')],
        [(n + 2, Conv2D trans_conv), (n + 3, Activation ''relu'')],
        [(n + 4, Conv2D trans_conv), (n + 5, Activation ''relu'')]])"
  by (simp add: numeral_3_eq_3 add_fusion_def add_conv_relu_def add_def)

lemma last_layer_trans_built:
  "fst ((add_conv_relu trans_conv bn ^^ 3) ([], n)) =
    (if bn then
       [(n, Conv2D trans_conv), (n + 1, BatchNorm), (n + 2, Activation ''relu''),
        (n + 3, Conv2D trans_conv), (n + 4, BatchNorm), (n + 5, Activation ''relu''),
        (n + 6, Conv2D trans_conv), (n + 7, BatchNorm), (n + 8, Activation ''relu'')]
     else
       [(n, Conv2D trans_conv), (n + 1, Activation ''relu''),
        (n + 2, Conv2D trans_conv), (n + 3, Activation ''relu''),
        (n + 4, Conv2D trans_conv), (n + 5, Activation ''relu'')])"
  by (simp add: numeral_3_eq_3 add_conv_relu_def add_def)

lemma extractor_init_Inr:
  assumes "VGGAtrousExtractor_init layers filters ex bn n = (Inr net, n')"
  shows "\<exists>base n1 n2 n3 n4.
           VGGAtrousBase_init layers filters bn n = (Inr base, n1)
         \<and> init_scale net = init_scale base \<and> stages net = stages base
         \<and> norm4 net = norm4 base \<and> norm5 net = norm5 base
         \<and> extras net = fst (build_extras ex bn ([], n1))
         \<and> last_layer_trans net = fst ((add_conv_relu trans_conv bn ^^ 3) ([], n2))
         \<and> transitions net = fst ((add_transition bn ^^ 3) ([], n3))
         \<and> fusions net = fst ((add_fusion bn ^^ 3) ([], n4))"
proof -
  obtain base n1 where b: "VGGAtrousBase_init layers filters bn n = (Inr base, n1)"
    using assms by (auto simp: VGGAtrousExtractor_init_def split: prod.splits sum.splits)
  obtain exs n2 where e: "build_extras ex bn ([], n1) = (exs, n2)"
    by (cases "build_extras ex bn ([], n1)")
  obtain llt n3 where l: "(add_conv_relu trans_conv bn ^^ 3) ([], n2) = (llt, n3)"
    by (cases "(add_conv_relu trans_conv bn ^^ 3) ([], n2)")
  obtain trs n4 where t: "(add_transition bn ^^ 3) ([], n3) = (trs, n4)"
    by (cases "(add_transition bn ^^ 3) ([], n3)")
  obtain fus n5 where f: "(add_fusion bn ^^ 3) ([], n4) = (fus, n5)"
    by (cases "(add_fusion bn ^^ 3) ([], n4)")
  have "net = \<lparr>init_scale = init_scale base, stages = stages base, norm4 = norm4 base,
                norm5 = norm5 base, extras = exs, last_layer_trans = llt,
                transitions = trs, fusions = fus\<rparr>"
    using assms by (simp add: VGGAtrousExtractor_init_def b e l t f)
  then show ?thesis
    using b e l t f
    by - (rule exI [of _ base], rule exI [of _ n1], rule exI [of _ n2], rule exI [of _ n3],
          rule exI [of _ n4], simp)
qed

subsection \<open>Forward pass\<close>

lemma extras_loop_Inr:
  "extras_loop F es x arm = Inr r \<Longrightarrow>
     \<exists>outs. r = arm @ outs \<and> length outs = length es
       \<and> (\<forall>k<length es. seq_forward F (es ! k) ((x # outs) ! k) = Inr (outs ! k))"
proof (induction es arbitrary: x arm r)
  case Nil
  then show ?case by simp
next
  case (Cons e es)
  from Cons.prems obtain y where y: "seq_forward F e x = Inr y"
    and rest: "extras_loop F es y (arm @ [y]) = Inr r"
    by (auto simp: bind_err_eq_Inr)
  from Cons.IH [OF rest] obtain outs where outs: "r = (arm @ [y]) @ outs" "length outs = length es"
    "\<forall>k<length es. seq_forward F (es ! k) ((y # outs) ! k) = Inr (outs ! k)"
    by blast
  have "\<forall>k<length (e # es). seq_forward F ((e # es) ! k) ((x # y # outs) ! k) = Inr ((y # outs) ! k)"
  proof (intro allI impI)
    fix k assume "k < length (e # es)"
    then show "seq_forward F ((e # es) ! k) ((x # y # outs) ! k) = Inr ((y # outs) ! k)"
      using y outs(3) by (cases k) auto
  qed
  with outs show ?case
    by (intro exI [of _ "y # outs"]) simp
qed

lemma hybrid_forward_Inr:
  assumes "hybrid_forward F net x = Inr out"
  shows "\<exists>x0 arm odm. broadcast_mul F x (param_data F (init_scale net)) = Inr x0
           \<and> length (stages net) = 6
           \<and> arm_features F net x0 = Inr arm
           \<and> features_fusion F net arm = Inr odm
           \<and> out = [''ARM_features'' \<mapsto> map Some arm, ''ODM_features'' \<mapsto> odm]"
  using assms
  by (auto simp: hybrid_forward_def bind_err_eq_Inr split: if_splits)

lemma arm_features_Inr:
  assumes "arm_features F net x0 = Inr arm" and "length (stages net) = 6"
  shows "\<exists>x2 x3 n4 p4 x4 q x5 n5 outs.
           stages_loop F (take 3 (stages net)) x0 = Inr x2
         \<and> seq_forward F (stages net ! 3) x2 = Inr x3
         \<and> Normalize_forward F (norm4 net) x3 = Inr n4
         \<and> Pooling F x3 pool2 = Inr p4
         \<and> seq_forward F (stages net ! 4) p4 = Inr x4
         \<and> Pooling F x4 pool3 = Inr q
         \<and> seq_forward F (stages net ! 5) q = Inr x5
         \<and> Normalize_forward F (norm5 net) x5 = Inr n5
         \<and> arm = n4 # n5 # outs
         \<and> length outs = length (extras net)
         \<and> (\<forall>k<length (extras net).
               seq_forward F (extras net ! k) ((x5 # outs) ! k) = Inr (outs ! k))"
proof -
  from assms obtain x2 x3 n4 p4 x4 q x5 n5 where
    a: "stages_loop F (take 3 (stages net)) x0 = Inr x2"
       "seq_forward F (stages net ! 3) x2 = Inr x3"
       "Normalize_forward F (norm4 net) x3 = Inr n4"
       "Pooling F x3 pool2 = Inr p4"
       "seq_forward F (stages net ! 4) p4 = Inr x4"
       "Pooling F x4 pool3 = Inr q"
       "seq_forward F (stages net ! 5) q = Inr x5"
       "Normalize_forward F (norm5 net) x5 = Inr n5"
    and e: "extras_loop F (extras net) x5 [n4, n5] = Inr arm"
    by (auto simp: arm_features_def bind_err_eq_Inr getitem_nonneg)
  from extras_loop_Inr [OF e] obtain outs where
    "arm = [n4, n5] @ outs" "length outs = length (extras net)"
    "\<forall>k<length (extras net). seq_forward F (extras net ! k) ((x5 # outs) ! k) = Inr (outs ! k)"
    by blast
  with a show ?thesis by auto
qed

lemma features_fusion_Inr:
  assumes "features_fusion F net arm = Inr odm"
  shows "\<exists>p3 p2 p1 p0 f0 f1 f2.
           3 \<le> length arm \<and> 3 \<le> length (transitions net) \<and> 3 \<le> length (fusions net)
         \<and> seq_forward F (last_layer_trans net) (last arm) = Inr p3
         \<and> ele_sum F (transitions net ! 2) p3 (arm ! 2) = Inr p2
         \<and> ele_sum F (transitions net ! 1) p2 (arm ! 1) = Inr p1
         \<and> ele_sum F (transitions net ! 0) p1 (arm ! 0) = Inr p0
         \<and> seq_forward F (fusions net ! 0) p0 = Inr f0
         \<and> seq_forward F (fusions net ! 1) p1 = Inr f1
         \<and> seq_forward F (fusions net ! 2) p2 = Inr f2
         \<and> odm = [Some f0, Some f1, Some f2, Some p3]"
proof -
  from assms obtain p3 odm1 where
    ne: "arm \<noteq> []" and p3: "seq_forward F (last_layer_trans net) (last arm) = Inr p3"
    and l1: "fusion_loop F (transitions net) arm [3, 2, 1] [None, None, None, Some p3] = Inr odm1"
    and l2: "fusions_loop F (fusions net) [0, 1, 2] odm1 = Inr odm"
    by (auto simp: features_fusion_def bind_err_eq_Inr getitem_last setitem_slots split: if_splits)
  from fusion_loop_Inr [OF l1] obtain p2 p1 p0 where
    f: "3 \<le> length arm" "3 \<le> length (transitions net)"
       "ele_sum F (transitions net ! 2) p3 (arm ! 2) = Inr p2"
       "ele_sum F (transitions net ! 1) p2 (arm ! 1) = Inr p1"
       "ele_sum F (transitions net ! 0) p1 (arm ! 0) = Inr p0"
       "odm1 = [Some p0, Some p1, Some p2, Some p3]"
    by blast
  from fusions_loop_Inr [OF l2 [unfolded f(6)]] obtain f0 f1 f2 where
    g: "3 \<le> length (fusions net)"
       "seq_forward F (fusions net ! 0) p0 = Inr f0"
       "seq_forward F (fusions net ! 1) p1 = Inr f1"
       "seq_forward F (fusions net ! 2) p2 = Inr f2"
       "odm = [Some f0, Some f1, Some f2, Some p3]"
    by blast
  from p3 f g show ?thesis by blast
qed

subsection \<open>Engines whose operators never raise\<close>

lemma total_layer: "total_engine F \<Longrightarrow> \<exists>y. layer_forward F l x = Inr y"
  by (cases l; cases "snd l") (auto simp: total_engine_def layer_forward_def)

lemma total_seq: "total_engine F \<Longrightarrow> \<exists>y. seq_forward F ls x = Inr y"
proof (induction ls arbitrary: x)
  case Nil
  then show ?case by simp
next
  case (Cons l ls)
  from total_layer [OF Cons.prems] obtain y where "layer_forward F l x = Inr y" by blast
  with Cons.IH [OF Cons.prems, of y] show ?case by simp
qed

lemma total_normalize: "total_engine F \<Longrightarrow> \<exists>y. Normalize_forward F nm x = Inr y"
  unfolding Normalize_forward_def total_engine_def
  by (metis bind_err_Inr)

lemma total_upsample: "total_engine F \<Longrightarrow> \<exists>y. upsample (repeat F) x s = Inr y"
  unfolding upsample_def total_engine_def
  by (metis bind_err_Inr)

lemma total_pooling: "total_engine F \<Longrightarrow> \<exists>y. Pooling F x p = Inr y"
  by (simp add: total_engine_def)

lemma total_add: "total_engine F \<Longrightarrow> \<exists>y. elemwise_add F a b = Inr y"
  by (simp add: total_engine_def)

lemma total_act: "total_engine F \<Longrightarrow> \<exists>y. F_Activation F a act = Inr y"
  by (simp add: total_engine_def)

lemma total_mul: "total_engine F \<Longrightarrow> \<exists>y. broadcast_mul F a b = Inr y"
  by (simp add: total_engine_def)

lemma total_stages_loop: "total_engine F \<Longrightarrow> \<exists>y. stages_loop F sts x = Inr y"
proof (induction sts arbitrary: x)
  case Nil
  then show ?case by simp
next
  case (Cons s sts)
  from total_seq [OF Cons.prems] obtain y where y: "seq_forward F s x = Inr y" by blast
  from total_pooling [OF Cons.prems] obtain z where z: "Pooling F y pool2 = Inr z" by blast
  from Cons.IH [OF Cons.prems, of z] y z show ?case by simp
qed

lemma total_extras_loop: "total_engine F \<Longrightarrow> \<exists>r. extras_loop F es x arm = Inr r"
proof (induction es arbitrary: x arm)
  case Nil
  then show ?case by simp
next
  case (Cons e es)
  from total_seq [OF Cons.prems] obtain y where y: "seq_forward F e x = Inr y" by blast
  from Cons.IH [OF Cons.prems, of y "arm @ [y]"] y show ?case by simp
qed

lemma total_arm_features:
  assumes "total_engine F" and "length (stages net) = 6"
  shows "\<exists>arm. arm_features F net x = Inr arm"
proof -
  obtain x2 where 1: "stages_loop F (take 3 (stages net)) x = Inr x2"
    using total_stages_loop [OF assms(1)] by blast
  obtain x3 where 2: "seq_forward F (stages net ! 3) x2 = Inr x3"
    using total_seq [OF assms(1)] by blast
  obtain n4 where 3: "Normalize_forward F (norm4 net) x3 = Inr n4"
    using total_normalize [OF assms(1)] by blast
  obtain p4 where 4: "Pooling F x3 pool2 = Inr p4"
    using total_pooling [OF assms(1)] by blast
  obtain x4 where 5: "seq_forward F (stages net ! 4) p4 = Inr x4"
    using total_seq [OF assms(1)] by blast
  obtain q where 6: "Pooling F x4 pool3 = Inr q"
    using total_pooling [OF assms(1)] by blast
  obtain x5 where 7: "seq_forward F (stages net ! 5) q = Inr x5"
    using total_seq [OF assms(1)] by blast
  obtain n5 where 8: "Normalize_forward F (norm5 net) x5 = Inr n5"
    using total_normalize [OF assms(1)] by blast
  obtain arm where 9: "extras_loop F (extras net) x5 [n4, n5] = Inr arm"
    using total_extras_loop [OF assms(1)] by blast
  show ?thesis
    using assms(2) 1 2 3 4 5 6 7 8 9 by (simp add: arm_features_def getitem_nonneg)
qed

lemma total_ele_step:
  assumes "total_engine F"
  shows "\<exists>p. bind_err (upsample (repeat F) deep 2) (\<lambda>u.
              bind_err (seq_forward F tr shallow) (\<lambda>t.
              bind_err (elemwise_add F u t) (\<lambda>s. F_Activation F s ''relu''))) = Inr p"
proof -
  obtain u where 1: "upsample (repeat F) deep 2 = Inr u"
    using total_upsample [OF assms] by blast
  obtain t where 2: "seq_forward F tr shallow = Inr t"
    using total_seq [OF assms] by blast
  obtain s where 3: "elemwise_add F u t = Inr s"
    using total_add [OF assms] by blast
  obtain p where 4: "F_Activation F s ''relu'' = Inr p"
    using total_act [OF assms] by blast
  show ?thesis using 1 2 3 4 by simp
qed

lemma fusion_loop_step:
  assumes "total_engine F" and "getitem odm i = Inr (Some deep)"
    and "getitem arm (i - 1) = Inr sh" and "getitem trs (i - 1) = Inr tr"
  shows "\<exists>p. ele_sum F tr deep sh = Inr p
           \<and> fusion_loop F trs arm (i # rest) odm =
               bind_err (setitem odm (i - 1) (Some p)) (fusion_loop F trs arm rest)"
proof -
  obtain u where 1: "upsample (repeat F) deep 2 = Inr u"
    using total_upsample [OF assms(1)] by blast
  obtain t where 2: "seq_forward F tr sh = Inr t"
    using total_seq [OF assms(1)] by blast
  obtain s where 3: "elemwise_add F u t = Inr s"
    using total_add [OF assms(1)] by blast
  obtain p where 4: "F_Activation F s ''relu'' = Inr p"
    using total_act [OF assms(1)] by blast
  show ?thesis
    using assms(2-4) 1 2 3 4 by (simp add: ele_sum_def tensor_of_def)
qed

lemma fusions_loop_step:
  assumes "total_engine F" and "getitem fus i = Inr fusion" and "getitem odm i = Inr (Some t)"
  shows "\<exists>f. seq_forward F fusion t = Inr f
           \<and> fusions_loop F fus (i # rest) odm =
               bind_err (setitem odm i (Some f)) (fusions_loop F fus rest)"
proof -
  obtain f where "seq_forward F fusion t = Inr f"
    using total_seq [OF assms(1)] by blast
  with assms(2,3) show ?thesis by (simp add: tensor_of_def)
qed

lemma total_features_fusion:
  assumes "total_engine F" and "3 \<le> length arm"
    and "3 \<le> length (transitions net)" and "3 \<le> length (fusions net)"
  shows "\<exists>ts. features_fusion F net arm = Inr (map Some ts) \<and> length ts = 4"
proof -
  let ?trs = "transitions net" and ?fus = "fusions net"
  have ne: "arm \<noteq> []" using assms(2) by (cases arm) simp_all
  obtain p3 where p3: "seq_forward F (last_layer_trans net) (last arm) = Inr p3"
    using total_seq [OF assms(1)] by blast
  have a: "getitem arm 2 = Inr (arm ! 2)" "getitem arm 1 = Inr (arm ! 1)"
    "getitem arm 0 = Inr (arm ! 0)"
    using assms(2) by (auto simp: getitem_nonneg)
  have t: "getitem ?trs 2 = Inr (?trs ! 2)" "getitem ?trs 1 = Inr (?trs ! 1)"
    "getitem ?trs 0 = Inr (?trs ! 0)"
    using assms(3) by (auto simp: getitem_nonneg)
  have f: "getitem ?fus 2 = Inr (?fus ! 2)" "getitem ?fus 1 = Inr (?fus ! 1)"
    "getitem ?fus 0 = Inr (?fus ! 0)"
    using assms(4) by (auto simp: getitem_nonneg)
  obtain p2 where s3: "fusion_loop F ?trs arm [3, 2, 1] [None, None, None, Some p3] =
      fusion_loop F ?trs arm [2, 1] [None, None, Some p2, Some p3]"
    using fusion_loop_step [OF assms(1), of "[None, None, None, Some p3]" 3 p3 arm "arm ! 2"
        ?trs "?trs ! 2" "[2, 1]"] a t
    by (auto simp: getitem_nonneg setitem_nonneg)
  obtain p1 where s2: "fusion_loop F ?trs arm [2, 1] [None, None, Some p2, Some p3] =
      fusion_loop F ?trs arm [1] [None, Some p1, Some p2, Some p3]"
    using fusion_loop_step [OF assms(1), of "[None, None, Some p2, Some p3]" 2 p2 arm "arm ! 1"
        ?trs "?trs ! 1" "[1]"] a t
    by (auto simp: getitem_nonneg setitem_nonneg)
  obtain p0 where s1: "fusion_loop F ?trs arm [1] [None, Some p1, Some p2, Some p3] =
      Inr [Some p0, Some p1, Some p2, Some p3]"
    using fusion_loop_step [OF assms(1), of "[None, Some p1, Some p2, Some p3]" 1 p1 arm "arm ! 0"
        ?trs "?trs ! 0" "[]"] a t
    by (auto simp: getitem_nonneg setitem_nonneg)
  obtain f0 where g0: "fusions_loop F ?fus [0, 1, 2] [Some p0, Some p1, Some p2, Some p3] =
      fusions_loop F ?fus [1, 2] [Some f0, Some p1, Some p2, Some p3]"
    using fusions_loop_step [OF assms(1), of ?fus 0 "?fus ! 0" "[Some p0, Some p1, Some p2, Some p3]"
        p0 "[1, 2]"] f
    by (auto simp: getitem_nonneg setitem_nonneg)
  obtain f1 where g1: "fusions_loop F ?fus [1, 2] [Some f0, Some p1, Some p2, Some p3] =
      fusions_loop F ?fus [2] [Some f0, Some f1, Some p2, Some p3]"
    using fusions_loop_step [OF assms(1), of ?fus 1 "?fus ! 1" "[Some f0, Some p1, Some p2, Some p3]"
        p1 "[2]"] f
    by (auto simp: getitem_nonneg setitem_nonneg)
  obtain f2 where g2: "fusions_loop F ?fus [2] [Some f0, Some f1, Some p2, Some p3] =
      Inr [Some f0, Some f1, Some f2, Some p3]"
    using fusions_loop_step [OF assms(1), of ?fus 2 "?fus ! 2" "[Some f0, Some f1, Some p2, Some p3]"
        p2 "[]"] f
    by (auto simp: getitem_nonneg setitem_nonneg)
  have "features_fusion F net arm = Inr (map Some [f0, f1, f2, p3])"
    by (simp add: features_fusion_def getitem_last ne p3 setitem_slots s3 s2 s1 g0 g1 g2
             del: fusion_loop.simps fusions_loop.simps)
  then show ?thesis by (intro exI [of _ "[f0, f1, f2, p3]"]) simp
qed

lemma features_fusion_two:
  assumes "total_engine F" and "length arm = 2"
  shows "features_fusion F net arm = Inl IndexError"
proof -
  have ne: "arm \<noteq> []" using assms(2) by (cases arm) simp_all
  obtain p3 where p3: "seq_forward F (last_layer_trans net) (last arm) = Inr p3"
    using total_seq [OF assms(1)] by blast
  show ?thesis
    using assms(2) by (simp add: features_fusion_def getitem_last ne p3 setitem_slots getitem_nonneg)
qed

subsection \<open>Repetition along an axis\<close>

lemma repeat_list_Cons: "repeat_list r (x # xs) = replicate r x @ repeat_list r xs"
  by (simp add: repeat_list_def)

lemma length_repeat_list: "length (repeat_list r xs) = r * length xs"
  by (induction xs) (simp_all add: repeat_list_def)

lemma nth_repeat_list:
  "i < length xs \<Longrightarrow> a < r \<Longrightarrow> repeat_list r xs ! (r * i + a) = xs ! i"
proof (induction xs arbitrary: i)
  case Nil
  then show ?case by simp
next
  case (Cons x xs)
  show ?case
  proof (cases i)
    case 0
    with Cons.prems show ?thesis by (simp add: repeat_list_Cons nth_append)
  next
    case (Suc j)
    with Cons.prems have j: "j < length xs" by simp
    have "r * i + a = r + (r * j + a)" using Suc by simp
    then show ?thesis
      using Cons.IH [OF j Cons.prems(2)] Suc by (simp add: repeat_list_Cons nth_append)
  qed
qed

lemma set_repeat_list: "set (repeat_list r xs) \<subseteq> set xs"
  by (induction xs) (auto simp: repeat_list_def)

lemma upsample_nd:
  "upsample nd_repeat x 2 = Inr (map (map (\<lambda>ch. repeat_list 2 (map (repeat_list 2) ch))) x)"
  by (simp add: upsample_def nd_repeat_def Let_def comp_def)


subsection \<open>What the constructors build\<close>

lemma base_init_ok:
  assumes "length layers = length filters" and "3 < length filters"
  shows "\<exists>b n'. VGGAtrousBase_init layers filters bn n = (Inr b, n')"
  using assms
  by (simp add: VGGAtrousBase_init_def getitem_3 split: prod.splits)

lemma extractor_init_ok:
  assumes "length layers = length filters" and "3 < length filters"
  shows "\<exists>net n'. VGGAtrousExtractor_init layers filters ex bn n = (Inr net, n')"
proof -
  from base_init_ok [OF assms] obtain b n1 where
    "VGGAtrousBase_init layers filters bn n = (Inr b, n1)" by blast
  then show ?thesis
    by (simp add: VGGAtrousExtractor_init_def split: prod.splits)
qed

lemma extractor_init_Inl:
  assumes "VGGAtrousBase_init layers filters bn n = (Inl e, n1)"
  shows "VGGAtrousExtractor_init layers filters ex bn n = (Inl e, n1)"
  using assms by (simp add: VGGAtrousExtractor_init_def)

lemma add_conv_relu_blocks:
  "map snd (fst (add_conv_relu c bn s)) = map snd (fst s) @ conv_unit bn c"
  by (cases s) (simp add: add_conv_relu_def add_def conv_unit_def)

lemma build_extra_blocks:
  "map snd (fst (build_extra cfg bn s)) =
     map snd (fst s) @ concat (map (\<lambda>c. conv_unit bn (extra_conv c)) cfg)"
  by (induction cfg arbitrary: s) (simp_all add: add_conv_relu_blocks)

lemma build_extras_blocks:
  "map (map snd) (fst (build_extras cs bn (exs, n))) =
     map (map snd) exs @ map (\<lambda>cfg. concat (map (\<lambda>c. conv_unit bn (extra_conv c)) cfg)) cs"
proof (induction cs arbitrary: exs n)
  case Nil
  then show ?case by simp
next
  case (Cons cfg cs)
  obtain extra n' where e: "build_extra cfg bn ([], n) = (extra, n')"
    by (cases "build_extra cfg bn ([], n)")
  have "map snd extra = concat (map (\<lambda>c. conv_unit bn (extra_conv c)) cfg)"
    using build_extra_blocks [of cfg bn "([], n)"] e by simp
  with Cons.IH [of "exs @ [extra]" n'] e show ?case by simp
qed

subsection \<open>Constructed networks and total engines\<close>

lemma stages_of_init:
  assumes "VGGAtrousExtractor_init layers filters ex bn n = (Inr net, n')"
  shows "length (stages net) = length layers + 1
       \<and> (\<exists>m. last (stages net) = fst (dilated_stage bn m))
       \<and> initial (norm4 net) = 20 \<and> initial (norm5 net) = 8
       \<and> length (extras net) = length ex
       \<and> length (transitions net) = 3 \<and> length (fusions net) = 3"
proof -
  from extractor_init_Inr [OF assms] obtain base n1 n3 n4 where
    b: "VGGAtrousBase_init layers filters bn n = (Inr base, n1)"
    and eqs: "stages net = stages base" "norm4 net = norm4 base" "norm5 net = norm5 base"
      "extras net = fst (build_extras ex bn ([], n1))"
      "transitions net = fst ((add_transition bn ^^ 3) ([], n3))"
      "fusions net = fst ((add_fusion bn ^^ 3) ([], n4))"
    by blast
  from base_init_Inr [OF b] obtain sts m where
    s: "length sts = length layers" "stages base = sts @ [fst (dilated_stage bn m)]"
    and i: "initial (norm4 base) = 20" "initial (norm5 base) = 8"
    by blast
  have 1: "length (stages net) = length layers + 1" by (simp add: eqs s)
  have 2: "\<exists>m. last (stages net) = fst (dilated_stage bn m)"
    by (rule exI [of _ m]) (simp add: eqs s)
  have 3: "length (extras net) = length ex"
    using build_extras_length [of ex bn "[]" n1] by (simp add: eqs)
  have 4: "length (transitions net) = 3" by (simp add: eqs transitions_built)
  have 5: "length (fusions net) = 3" by (simp add: eqs fusions_built)
  show ?thesis using 1 2 3 4 5 i eqs(2,3) by simp
qed

lemma total_sym_engine: "total_engine sym_engine"
  by (simp add: total_engine_def sym_engine_def)

lemma hybrid_forward_total:
  assumes "total_engine F" and "length (stages net) = 6" and "extras net \<noteq> []"
    and "3 \<le> length (transitions net)" and "3 \<le> length (fusions net)"
  shows "\<exists>arm ts. hybrid_forward F net x =
            Inr [''ARM_features'' \<mapsto> map Some arm, ''ODM_features'' \<mapsto> map Some ts]
          \<and> length arm = 2 + length (extras net) \<and> length ts = 4"
proof -
  obtain x0 where x0: "broadcast_mul F x (param_data F (init_scale net)) = Inr x0"
    using total_mul [OF assms(1)] by blast
  obtain arm where arm: "arm_features F net x0 = Inr arm"
    using total_arm_features [OF assms(1,2)] by blast
  from arm_features_Inr [OF arm assms(2)] obtain n4 n5 outs where
    "arm = n4 # n5 # outs \<and> length outs = length (extras net)"
    by (elim exE conjE) (rule that, rule conjI)
  then have len: "length arm = 2 + length (extras net)" by simp
  with assms(3) have "3 \<le> length arm" by (cases "extras net") simp_all
  from total_features_fusion [OF assms(1) this assms(4,5)] obtain ts where
    ts: "features_fusion F net arm = Inr (map Some ts)" "length ts = 4"
    by (elim exE conjE) (rule that)
  have "hybrid_forward F net x =
      Inr [''ARM_features'' \<mapsto> map Some arm, ''ODM_features'' \<mapsto> map Some ts]"
    by (simp add: hybrid_forward_def x0 assms(2) arm ts(1))
  then show ?thesis
    using len ts(2) by - (rule exI [of _ arm], rule exI [of _ ts], simp)
qed

lemma hybrid_forward_no_extras:
  assumes "total_engine F" and "length (stages net) = 6" and "extras net = []"
  shows "hybrid_forward F net x = Inl IndexError"
proof -
  obtain x0 where x0: "broadcast_mul F x (param_data F (init_scale net)) = Inr x0"
    using total_mul [OF assms(1)] by blast
  obtain arm where arm: "arm_features F net x0 = Inr arm"
    using total_arm_features [OF assms(1,2)] by blast
  from arm_features_Inr [OF arm assms(2)] obtain n4 n5 outs where
    "arm = n4 # n5 # outs \<and> length outs = length (extras net)"
    by (elim exE conjE) (rule that, rule conjI)
  then have "length arm = 2" using assms(3) by simp
  from features_fusion_two [OF assms(1) this]
  show ?thesis
    by (simp add: hybrid_forward_def x0 assms(2) arm)
qed

lemma vgg_spec_lengths:
  assumes "vgg_spec num_layers = Some (ls, fs)"
  shows "length ls = 5 \<and> length fs = 5"
  using assms by (auto simp: vgg_spec_def split: if_splits)

lemma preset_builds:
  assumes "num_layers \<in> {11, 13, 16, 19}" and "im_size \<in> {320, 512}"
  shows "\<exists>net m. get_vgg_atrous_extractor num_layers im_size bn n = (Inr net, m)
           \<and> length (stages net) = 6"
proof -
  from assms(1) obtain ls fs where v: "vgg_spec num_layers = Some (ls, fs)"
    by (auto simp: vgg_spec_def)
  from assms(2) obtain ex where e: "extra_spec im_size = Some ex"
    by (auto simp: extra_spec_def)
  from vgg_spec_lengths [OF v] have l: "length ls = length fs" "3 < length fs" "length ls = 5"
    by simp_all
  from extractor_init_ok [OF l(1,2)] obtain net m where
    c: "VGGAtrousExtractor_init ls fs ex bn n = (Inr net, m)" by blast
  from stages_of_init [OF c] l(3) have "length (stages net) = 6" by simp
  moreover have "get_vgg_atrous_extractor num_layers im_size bn n = (Inr net, m)"
    by (simp add: get_vgg_atrous_extractor_def v e c)
  ultimately show ?thesis by (intro exI [of _ net] exI [of _ m]) simp
qed

subsection \<open>What the fusion reads\<close>

lemma Normalize_forward_Inr:
  assumes "Normalize_forward F nm x = Inr r"
  shows "\<exists>y. L2Normalization F x ''channel'' (eps nm) = Inr y
           \<and> broadcast_mul F y (param_data F (scale nm)) = Inr r"
  using assms by (simp add: Normalize_forward_def bind_err_eq_Inr)

lemma features_fusion_short:
  assumes "length arm = 2"
  shows "features_fusion F net arm =
           bind_err (seq_forward F (last_layer_trans net) (last arm)) (\<lambda>p3. Inl IndexError)"
proof -
  have ne: "arm \<noteq> []" using assms by (cases arm) simp_all
  show ?thesis
  proof (cases "seq_forward F (last_layer_trans net) (last arm)")
    case (Inl e)
    then show ?thesis by (simp add: features_fusion_def getitem_last ne)
  next
    case (Inr p3)
    then show ?thesis
      using assms by (simp add: features_fusion_def getitem_last ne setitem_slots getitem_nonneg)
  qed
qed

lemma arm_features_length:
  assumes "arm_features F net x0 = Inr arm" and "length (stages net) = 6"
  shows "length arm = 2 + length (extras net)"
proof -
  from arm_features_Inr [OF assms] obtain n4 n5 outs where
    "arm = n4 # n5 # outs \<and> length outs = length (extras net)"
    by (elim exE conjE) (rule that, rule conjI)
  then show ?thesis by simp
qed

lemma hybrid_forward_no_extras_eq:
  assumes "extras net = []"
  shows "hybrid_forward F net x =
           bind_err (broadcast_mul F x (param_data F (init_scale net))) (\<lambda>x0.
             if length (stages net) \<noteq> 6 then Inl AssertionError
             else bind_err (arm_features F net x0) (\<lambda>arm.
                  bind_err (seq_forward F (last_layer_trans net) (last arm))
                    (\<lambda>p3. Inl IndexError)))"
proof (cases "broadcast_mul F x (param_data F (init_scale net))")
  case (Inl e)
  then show ?thesis by (simp add: hybrid_forward_def)
next
  case x0: (Inr x0)
  show ?thesis
  proof (cases "length (stages net) = 6")
    case False
    with x0 show ?thesis by (simp add: hybrid_forward_def)
  next
    case six: True
    show ?thesis
    proof (cases "arm_features F net x0")
      case (Inl e)
      with x0 six show ?thesis by (simp add: hybrid_forward_def)
    next
      case arm: (Inr arm)
      from arm_features_length [OF arm six] assms have "length arm = 2" by simp
      note ff = features_fusion_short [OF this, of F net]
      show ?thesis
      proof (cases "seq_forward F (last_layer_trans net) (last arm)")
        case (Inl e)
        with x0 six arm ff show ?thesis by (simp add: hybrid_forward_def)
      next
        case (Inr p3)
        with x0 six arm ff show ?thesis by (simp add: hybrid_forward_def)
      qed
    qed
  qed
qed

lemma getitem_reads:
  assumes "3 \<le> length arm"
  shows "getitem arm (- 1) = Inr (last arm) \<and> getitem arm 2 = Inr (arm ! 2)
       \<and> getitem arm 1 = Inr (arm ! 1) \<and> getitem arm 0 = Inr (arm ! 0)"
proof -
  have "arm \<noteq> []" using assms by (cases arm) simp_all
  then show ?thesis using assms by (auto simp: getitem_last getitem_nonneg)
qed

lemma getitem_two:
  assumes "length arm = 2"
  shows "getitem arm (- 1) = Inr (last arm) \<and> getitem arm 2 = Inl IndexError"
proof -
  have "arm \<noteq> []" using assms by (cases arm) simp_all
  then show ?thesis using assms by (simp add: getitem_last getitem_nonneg)
qed

section \<open>The claims\<close>

text \<open>
  C1, as amended. In the forward pass the deepest feature \<open>ODM_features[3]\<close> is
  \<open>last_layer_trans\<close> of the last ARM feature, \<open>ARM_features[-1]\<close>, with no upsampling;
  this is \<open>ARM_features[3]\<close> when the network has exactly two extra stages. Then, for
  \<open>i\<close> from 3 down to 1, \<open>ODM_features[i-1]\<close> is the \<open>relu\<close> of the sum of the upsampled
  \<open>ODM_features[i]\<close> and \<open>transitions[i-1]\<close> of \<open>ARM_features[i-1]\<close>. Finally
  \<open>fusions[i]\<close> is applied to \<open>ODM_features[i]\<close> for \<open>i\<close> in 0, 1, 2 only: the last entry of
  the result is the unfused \<open>p3\<close>.
\<close>

theorem odm_fusion_order:
  assumes "hybrid_forward F net x = Inr out"
  shows "\<exists>arm p3 p2 p1 p0 f0 f1 f2.
           out ''ARM_features'' = Some (map Some arm) \<and> 3 \<le> length arm
         \<and> seq_forward F (last_layer_trans net) (last arm) = Inr p3
         \<and> ele_sum F (transitions net ! 2) p3 (arm ! 2) = Inr p2
         \<and> ele_sum F (transitions net ! 1) p2 (arm ! 1) = Inr p1
         \<and> ele_sum F (transitions net ! 0) p1 (arm ! 0) = Inr p0
         \<and> seq_forward F (fusions net ! 0) p0 = Inr f0
         \<and> seq_forward F (fusions net ! 1) p1 = Inr f1
         \<and> seq_forward F (fusions net ! 2) p2 = Inr f2
         \<and> out ''ODM_features'' = Some [Some f0, Some f1, Some f2, Some p3]
         \<and> (length (extras net) = 2 \<longrightarrow> last arm = arm ! 3)"
proof -
  from hybrid_forward_Inr [OF assms] obtain x0 arm odm where
    f0: "broadcast_mul F x (param_data F (init_scale net)) = Inr x0
       \<and> length (stages net) = 6 \<and> arm_features F net x0 = Inr arm
       \<and> features_fusion F net arm = Inr odm
       \<and> out = [''ARM_features'' \<mapsto> map Some arm, ''ODM_features'' \<mapsto> odm]"
    by (elim exE) (rule that)
  then have f: "length (stages net) = 6" "arm_features F net x0 = Inr arm"
       "features_fusion F net arm = Inr odm"
       "out = [''ARM_features'' \<mapsto> map Some arm, ''ODM_features'' \<mapsto> odm]"
    by simp_all
  from arm_features_Inr [OF f(2) f(1)] obtain n4 n5 outs where
    "arm = n4 # n5 # outs \<and> length outs = length (extras net)"
    by (elim exE conjE) (rule that, rule conjI)
  then have len: "length arm = 2 + length (extras net)" by simp
  from features_fusion_Inr [OF f(3)] obtain p3 p2 p1 p0 f0 f1 f2 where
    g0: "3 \<le> length arm \<and> 3 \<le> length (transitions net) \<and> 3 \<le> length (fusions net)
         \<and> seq_forward F (last_layer_trans net) (last arm) = Inr p3
         \<and> ele_sum F (transitions net ! 2) p3 (arm ! 2) = Inr p2
         \<and> ele_sum F (transitions net ! 1) p2 (arm ! 1) = Inr p1
         \<and> ele_sum F (transitions net ! 0) p1 (arm ! 0) = Inr p0
         \<and> seq_forward F (fusions net ! 0) p0 = Inr f0
         \<and> seq_forward F (fusions net ! 1) p1 = Inr f1
         \<and> seq_forward F (fusions net ! 2) p2 = Inr f2
         \<and> odm = [Some f0, Some f1, Some f2, Some p3]"
    by (elim exE) (rule that)
  then have g: "3 \<le> length arm"
       "seq_forward F (last_layer_trans net) (last arm) = Inr p3"
       "ele_sum F (transitions net ! 2) p3 (arm ! 2) = Inr p2"
       "ele_sum F (transitions net ! 1) p2 (arm ! 1) = Inr p1"
       "ele_sum F (transitions net ! 0) p1 (arm ! 0) = Inr p0"
       "seq_forward F (fusions net ! 0) p0 = Inr f0"
       "seq_forward F (fusions net ! 1) p1 = Inr f1"
       "seq_forward F (fusions net ! 2) p2 = Inr f2"
       "odm = [Some f0, Some f1, Some f2, Some p3]"
    by simp_all
  have a: "out ''ARM_features'' = Some (map Some arm)"
    by (simp add: f(4))
  have o: "out ''ODM_features'' = Some [Some f0, Some f1, Some f2, Some p3]"
    by (simp add: f(4) g(9))
  have l: "length (extras net) = 2 \<longrightarrow> last arm = arm ! 3"
  proof
    assume "length (extras net) = 2"
    with len have "length arm = 4" by simp
    moreover from this have "arm \<noteq> []" by (cases arm) simp_all
    ultimately show "last arm = arm ! 3" by (simp add: last_conv_nth)
  qed
  show ?thesis
    by (rule exI [of _ arm], rule exI [of _ p3], rule exI [of _ p2], rule exI [of _ p1],
        rule exI [of _ p0], rule exI [of _ f0], rule exI [of _ f1], rule exI [of _ f2],
        intro conjI)
       (fact a, fact g(1), fact g(2), fact g(3), fact g(4), fact g(5), fact g(6),
        fact g(7), fact g(8), fact o, fact l)
qed

text \<open>
  The instance of C1 for the 16-layer preset with two extra stages, on symbols.
\<close>

theorem odm_fusion_order_witness:
  "\<exists>out arm p3.
      hybrid_forward sym_engine
        (projr (fst (VGGAtrousExtractor_init [2, 2, 3, 3, 3] [64, 128, 256, 512, 512]
           [[(256, 1, 1, 0), (512, 3, 2, 1)], [(128, 1, 1, 0), (256, 3, 2, 1)]] False 0)))
        (Var ''data'') = Inr out
    \<and> out ''ARM_features'' = Some (map Some arm)
    \<and> seq_forward sym_engine
        (last_layer_trans (projr (fst (VGGAtrousExtractor_init [2, 2, 3, 3, 3]
           [64, 128, 256, 512, 512]
           [[(256, 1, 1, 0), (512, 3, 2, 1)], [(128, 1, 1, 0), (256, 3, 2, 1)]] False 0))))
        (arm ! 3) = Inr p3
    \<and> map_option (\<lambda>odm. odm ! 3) (out ''ODM_features'') = Some (Some p3)"
proof -
  let ?c = "VGGAtrousExtractor_init [2, 2, 3, 3, 3] [64, 128, 256, 512, 512]
      [[(256, 1, 1, 0), (512, 3, 2, 1)], [(128, 1, 1, 0), (256, 3, 2, 1)]] False 0"
  let ?net = "projr (fst ?c)"
  have h: "?c = (Inr ?net, snd ?c)"
    by code_simp
  note si = stages_of_init [OF h]
  from si have st: "length (stages ?net) = 6" by simp
  from si have e2: "length (extras ?net) = 2" by simp
  then have ex: "extras ?net \<noteq> []" by (cases "extras ?net") simp_all
  from si have tr: "3 \<le> length (transitions ?net)" and fu: "3 \<le> length (fusions ?net)"
    by simp_all
  from hybrid_forward_total [OF total_sym_engine st ex tr fu, of "Var ''data''"]
  obtain out where f: "hybrid_forward sym_engine ?net (Var ''data'') = Inr out"
    by (elim exE conjE) (rule that)
  from odm_fusion_order [OF f] obtain arm p3 f0 f1 f2 where
    a: "out ''ARM_features'' = Some (map Some arm)"
    and p: "seq_forward sym_engine (last_layer_trans ?net) (last arm) = Inr p3"
    and o: "out ''ODM_features'' = Some [Some f0, Some f1, Some f2, Some p3]"
    and l: "length (extras ?net) = 2 \<longrightarrow> last arm = arm ! 3"
    by (elim exE conjE) (rule that)
  from l e2 have "last arm = arm ! 3" by (rule mp)
  with p have p': "seq_forward sym_engine (last_layer_trans ?net) (arm ! 3) = Inr p3"
    by simp
  from o have o': "map_option (\<lambda>odm. odm ! 3) (out ''ODM_features'') = Some (Some p3)"
    by simp
  show ?thesis
    by (rule exI [of _ out], rule exI [of _ arm], rule exI [of _ p3], intro conjI)
       (fact f, fact a, fact p', fact o')
qed

text \<open>
  C1 as stated fails for a network with three extra stages: \<open>ODM_features[3]\<close> is
  computed from \<open>ARM_features[4]\<close>, not from \<open>ARM_features[3]\<close>.
\<close>

theorem odm_fusion_order_counterexample:
  "bind_err (fst (VGGAtrousExtractor_init [2, 2, 3, 3, 3] [64, 128, 256, 512, 512]
       [[(256, 1, 1, 0), (512, 3, 2, 1)], [(128, 1, 1, 0), (256, 3, 2, 1)],
        [(128, 1, 1, 0), (256, 3, 2, 1)]] False 0))
     (\<lambda>net. bind_err (hybrid_forward sym_engine net (Var ''data''))
     (\<lambda>out. bind_err (seq_forward sym_engine (last_layer_trans net)
                        (the (the (out ''ARM_features'') ! 3)))
     (\<lambda>from3. bind_err (seq_forward sym_engine (last_layer_trans net)
                        (the (the (out ''ARM_features'') ! 4)))
     (\<lambda>from4. Inr (the (out ''ODM_features'') ! 3 = Some from3,
                    the (out ''ODM_features'') ! 3 = Some from4)))))
   = Inr (False, True)"
  by code_simp

text \<open>
  C2, as amended. The \<open>ARM_features\<close> list returned by the forward pass holds, in this
  order: the output of stage 4 (index 3) through the \<open>Normalize\<close> layer of initial scale
  20, the output of the dilated stage 6 (index 5) through the \<open>Normalize\<close> layer of initial
  scale 8, and then the output of each extra stage in turn, each run on the output of the
  one before (the first on the unnormalised output of stage 6). For a network built with
  exactly two extra stages these are exactly four entries, the last two being the outputs
  of the first and of the second extra stage.
\<close>

theorem arm_features_order:
  assumes "VGGAtrousExtractor_init layers filters extras_cfg batch_norm n = (Inr net, n')"
    and "hybrid_forward F net x = Inr out"
  shows "\<exists>x0 x2 x3 y4 n4 p4 x4 q x5 y5 n5 outs.
           broadcast_mul F x (param_data F (init_scale net)) = Inr x0
         \<and> stages_loop F (take 3 (stages net)) x0 = Inr x2
         \<and> seq_forward F (stages net ! 3) x2 = Inr x3
         \<and> Normalize_forward F (norm4 net) x3 = Inr n4 \<and> initial (norm4 net) = 20
         \<and> L2Normalization F x3 ''channel'' (eps (norm4 net)) = Inr y4
         \<and> broadcast_mul F y4 (param_data F (scale (norm4 net))) = Inr n4
         \<and> Pooling F x3 pool2 = Inr p4
         \<and> seq_forward F (stages net ! 4) p4 = Inr x4
         \<and> Pooling F x4 pool3 = Inr q
         \<and> seq_forward F (stages net ! 5) q = Inr x5
         \<and> (\<exists>m. stages net ! 5 = fst (dilated_stage batch_norm m))
         \<and> Normalize_forward F (norm5 net) x5 = Inr n5 \<and> initial (norm5 net) = 8
         \<and> L2Normalization F x5 ''channel'' (eps (norm5 net)) = Inr y5
         \<and> broadcast_mul F y5 (param_data F (scale (norm5 net))) = Inr n5
         \<and> out ''ARM_features'' = Some (map Some (n4 # n5 # outs))
         \<and> length outs = length extras_cfg
         \<and> (\<forall>k<length extras_cfg.
               seq_forward F (extras net ! k) ((x5 # outs) ! k) = Inr (outs ! k))
         \<and> (length extras_cfg = 2 \<longrightarrow>
               (\<exists>o1 o2. out ''ARM_features'' = Some [Some n4, Some n5, Some o1, Some o2]
                  \<and> seq_forward F (extras net ! 0) x5 = Inr o1
                  \<and> seq_forward F (extras net ! 1) o1 = Inr o2))"
proof -
  from hybrid_forward_Inr [OF assms(2)] obtain x0 arm odm where
    f0: "broadcast_mul F x (param_data F (init_scale net)) = Inr x0
       \<and> length (stages net) = 6 \<and> arm_features F net x0 = Inr arm
       \<and> features_fusion F net arm = Inr odm
       \<and> out = [''ARM_features'' \<mapsto> map Some arm, ''ODM_features'' \<mapsto> odm]"
    by (elim exE) (rule that)
  then have f: "broadcast_mul F x (param_data F (init_scale net)) = Inr x0"
       "length (stages net) = 6" "arm_features F net x0 = Inr arm"
       "out = [''ARM_features'' \<mapsto> map Some arm, ''ODM_features'' \<mapsto> odm]"
    by simp_all
  from arm_features_Inr [OF f(3) f(2)] obtain x2 x3 n4 p4 x4 q x5 n5 outs where
    a0: "stages_loop F (take 3 (stages net)) x0 = Inr x2
       \<and> seq_forward F (stages net ! 3) x2 = Inr x3
       \<and> Normalize_forward F (norm4 net) x3 = Inr n4
       \<and> Pooling F x3 pool2 = Inr p4
       \<and> seq_forward F (stages net ! 4) p4 = Inr x4
       \<and> Pooling F x4 pool3 = Inr q
       \<and> seq_forward F (stages net ! 5) q = Inr x5
       \<and> Normalize_forward F (norm5 net) x5 = Inr n5
       \<and> arm = n4 # n5 # outs
       \<and> length outs = length (extras net)
       \<and> (\<forall>k<length (extras net).
               seq_forward F (extras net ! k) ((x5 # outs) ! k) = Inr (outs ! k))"
    by (elim exE) (rule that)
  then have a: "stages_loop F (take 3 (stages net)) x0 = Inr x2"
       "seq_forward F (stages net ! 3) x2 = Inr x3"
       "Normalize_forward F (norm4 net) x3 = Inr n4"
       "Pooling F x3 pool2 = Inr p4"
       "seq_forward F (stages net ! 4) p4 = Inr x4"
       "Pooling F x4 pool3 = Inr q"
       "seq_forward F (stages net ! 5) q = Inr x5"
       "Normalize_forward F (norm5 net) x5 = Inr n5"
       "arm = n4 # n5 # outs"
       "length outs = length (extras net)"
       "\<forall>k<length (extras net).
               seq_forward F (extras net ! k) ((x5 # outs) ! k) = Inr (outs ! k)"
    by simp_all
  from Normalize_forward_Inr [OF a(3)] obtain y4 where
    y4: "L2Normalization F x3 ''channel'' (eps (norm4 net)) = Inr y4"
        "broadcast_mul F y4 (param_data F (scale (norm4 net))) = Inr n4"
    by (elim exE conjE) (rule that)
  from Normalize_forward_Inr [OF a(8)] obtain y5 where
    y5: "L2Normalization F x5 ''channel'' (eps (norm5 net)) = Inr y5"
        "broadcast_mul F y5 (param_data F (scale (norm5 net))) = Inr n5"
    by (elim exE conjE) (rule that)
  note si = stages_of_init [OF assms(1)]
  from si have c: "initial (norm4 net) = 20" "initial (norm5 net) = 8"
       "length (extras net) = length extras_cfg"
    by simp_all
  from si obtain m where m: "last (stages net) = fst (dilated_stage batch_norm m)"
    by (elim conjE exE) (rule that)
  have "stages net \<noteq> []" using f(2) by (cases "stages net") simp_all
  then have "last (stages net) = stages net ! 5"
    using f(2) by (simp add: last_conv_nth)
  then have d: "\<exists>m. stages net ! 5 = fst (dilated_stage batch_norm m)"
    using m by (intro exI [of _ m]) simp
  have o: "out ''ARM_features'' = Some (map Some (n4 # n5 # outs))"
    by (simp add: f(4) a(9))
  note l = a(10) [unfolded c(3)] and e = a(11) [unfolded c(3)]
  have two: "length extras_cfg = 2 \<longrightarrow>
               (\<exists>o1 o2. out ''ARM_features'' = Some [Some n4, Some n5, Some o1, Some o2]
                  \<and> seq_forward F (extras net ! 0) x5 = Inr o1
                  \<and> seq_forward F (extras net ! 1) o1 = Inr o2)"
  proof
    assume t: "length extras_cfg = 2"
    with l have "length outs = 2" by simp
    then obtain o1 o2 where os: "outs = [o1, o2]"
      by (cases outs; cases "tl outs"; cases "tl (tl outs)") auto
    have k0: "(0::nat) < length extras_cfg" and k1: "(1::nat) < length extras_cfg"
      using t by simp_all
    from e [rule_format, OF k0] have e0: "seq_forward F (extras net ! 0) x5 = Inr o1"
      unfolding os by simp
    from e [rule_format, OF k1] have e1: "seq_forward F (extras net ! 1) o1 = Inr o2"
      unfolding os by simp
    from o have o4: "out ''ARM_features'' = Some [Some n4, Some n5, Some o1, Some o2]"
      unfolding os by simp
    show "\<exists>o1 o2. out ''ARM_features'' = Some [Some n4, Some n5, Some o1, Some o2]
                  \<and> seq_forward F (extras net ! 0) x5 = Inr o1
                  \<and> seq_forward F (extras net ! 1) o1 = Inr o2"
      by (rule exI [of _ o1], rule exI [of _ o2], intro conjI) (fact o4, fact e0, fact e1)
  qed
  show ?thesis
    by (rule exI [of _ x0], rule exI [of _ x2], rule exI [of _ x3], rule exI [of _ y4],
        rule exI [of _ n4], rule exI [of _ p4], rule exI [of _ x4], rule exI [of _ q],
        rule exI [of _ x5], rule exI [of _ y5], rule exI [of _ n5], rule exI [of _ outs],
        intro conjI)
       (fact f(1), fact a(1), fact a(2), fact a(3), fact c(1), fact y4(1), fact y4(2),
        fact a(4), fact a(5), fact a(6), fact a(7), fact d, fact a(8), fact c(2),
        fact y5(1), fact y5(2), fact o, fact l, fact e, fact two)
qed

text \<open>
  The instance of C2 for the 16-layer preset with two extra stages, on symbols.
\<close>

theorem arm_features_order_witness:
  "\<exists>out n4 n5 o1 o2.
      hybrid_forward sym_engine
        (projr (fst (VGGAtrousExtractor_init [2, 2, 3, 3, 3] [64, 128, 256, 512, 512]
           [[(256, 1, 1, 0), (512, 3, 2, 1)], [(128, 1, 1, 0), (256, 3, 2, 1)]] False 0)))
        (Var ''data'') = Inr out
    \<and> out ''ARM_features'' = Some [Some n4, Some n5, Some o1, Some o2]
    \<and> seq_forward sym_engine
        (extras (projr (fst (VGGAtrousExtractor_init [2, 2, 3, 3, 3] [64, 128, 256, 512, 512]
           [[(256, 1, 1, 0), (512, 3, 2, 1)], [(128, 1, 1, 0), (256, 3, 2, 1)]] False 0))) ! 1)
        o1 = Inr o2"
proof -
  let ?cfg = "[[(256, 1, 1, 0), (512, 3, 2, 1)], [(128, 1, 1, 0), (256, 3, 2, 1)]]
                :: (int \<times> int \<times> int \<times> int) list list"
  let ?c = "VGGAtrousExtractor_init [2, 2, 3, 3, 3] [64, 128, 256, 512, 512] ?cfg False 0"
  let ?net = "projr (fst ?c)"
  have h: "?c = (Inr ?net, snd ?c)"
    by code_simp
  note si = stages_of_init [OF h]
  from si have st: "length (stages ?net) = 6" by simp
  from si have "length (extras ?net) = 2" by simp
  then have ex: "extras ?net \<noteq> []" by (cases "extras ?net") simp_all
  from si have tr: "3 \<le> length (transitions ?net)" and fu: "3 \<le> length (fusions ?net)"
    by simp_all
  from hybrid_forward_total [OF total_sym_engine st ex tr fu, of "Var ''data''"]
  obtain out where f: "hybrid_forward sym_engine ?net (Var ''data'') = Inr out"
    by (elim exE conjE) (rule that)
  have two: "length ?cfg = 2" by simp
  from arm_features_order [OF h f] obtain x5 n4 n5 where
    "length ?cfg = 2 \<longrightarrow>
       (\<exists>o1 o2. out ''ARM_features'' = Some [Some n4, Some n5, Some o1, Some o2]
          \<and> seq_forward sym_engine (extras ?net ! 0) x5 = Inr o1
          \<and> seq_forward sym_engine (extras ?net ! 1) o1 = Inr o2)"
    by (elim exE conjE) (rule that)
  from this two have "\<exists>o1 o2. out ''ARM_features'' = Some [Some n4, Some n5, Some o1, Some o2]
          \<and> seq_forward sym_engine (extras ?net ! 0) x5 = Inr o1
          \<and> seq_forward sym_engine (extras ?net ! 1) o1 = Inr o2"
    by (rule mp)
  then obtain o1 o2 where
    a: "out ''ARM_features'' = Some [Some n4, Some n5, Some o1, Some o2]"
    and s: "seq_forward sym_engine (extras ?net ! 1) o1 = Inr o2"
    by (elim exE conjE) (rule that)
  show ?thesis
    by (rule exI [of _ out], rule exI [of _ n4], rule exI [of _ n5], rule exI [of _ o1],
        rule exI [of _ o2], intro conjI) (fact f, fact a, fact s)
qed

text \<open>
  C2 as stated fails for a network with one extra stage: the forward pass returns 3 ARM
  features, so there is no fourth entry and no output of a second extra stage.
\<close>

theorem arm_features_order_counterexample:
  "bind_err (fst (VGGAtrousExtractor_init [1, 1, 2, 2, 2] [64, 128, 256, 512, 512]
       [[(256, 1, 1, 0), (512, 3, 2, 1)]] True 0))
     (\<lambda>net. bind_err (hybrid_forward sym_engine net (Var ''data''))
     (\<lambda>out. Inr (map_option length (out ''ARM_features''),
                  map_option (\<lambda>arm. drop 3 arm) (out ''ARM_features''))))
   = Inr (Some 3, Some [])"
  by code_simp

text \<open>
  C3, as amended. Whenever the forward pass succeeds, its result has exactly the two keys
  \<open>ARM_features\<close> and \<open>ODM_features\<close>; \<open>ODM_features\<close> is a list of exactly 4 tensors and
  \<open>ARM_features\<close> a list of exactly 2 + \<open>len(extras)\<close> tensors, which is 4 for a network
  built with two extra stages.
\<close>

theorem output_contract:
  assumes "VGGAtrousExtractor_init layers filters extras_cfg batch_norm n = (Inr net, n')"
    and "hybrid_forward F net x = Inr out"
  shows "dom out = {''ARM_features'', ''ODM_features''}
       \<and> (\<exists>arm odm. out ''ARM_features'' = Some (map Some arm)
             \<and> length arm = 2 + length extras_cfg
             \<and> out ''ODM_features'' = Some (map Some odm) \<and> length odm = 4)"
proof -
  from hybrid_forward_Inr [OF assms(2)] obtain x0 arm odm where
    f0: "broadcast_mul F x (param_data F (init_scale net)) = Inr x0
       \<and> length (stages net) = 6 \<and> arm_features F net x0 = Inr arm
       \<and> features_fusion F net arm = Inr odm
       \<and> out = [''ARM_features'' \<mapsto> map Some arm, ''ODM_features'' \<mapsto> odm]"
    by (elim exE) (rule that)
  then have f: "length (stages net) = 6" "arm_features F net x0 = Inr arm"
       "features_fusion F net arm = Inr odm"
       "out = [''ARM_features'' \<mapsto> map Some arm, ''ODM_features'' \<mapsto> odm]"
    by simp_all
  from arm_features_Inr [OF f(2) f(1)] obtain n4 n5 outs where
    "arm = n4 # n5 # outs \<and> length outs = length (extras net)"
    by (elim exE conjE) (rule that, rule conjI)
  moreover from stages_of_init [OF assms(1)] have "length (extras net) = length extras_cfg"
    by simp
  ultimately have len: "length arm = 2 + length extras_cfg" by simp
  from features_fusion_Inr [OF f(3)] obtain p3 f0 f1 f2 where
    g: "odm = [Some f0, Some f1, Some f2, Some p3]"
    by (elim exE conjE) (rule that)
  have d: "dom out = {''ARM_features'', ''ODM_features''}"
    unfolding f(4) by (simp add: insert_commute)
  have a: "out ''ARM_features'' = Some (map Some arm)"
    by (simp add: f(4))
  have o: "out ''ODM_features'' = Some (map Some [f0, f1, f2, p3])"
    by (simp add: f(4) g)
  have l4: "length [f0, f1, f2, p3] = 4" by simp
  show ?thesis
    by (rule conjI [OF d], rule exI [of _ arm], rule exI [of _ "[f0, f1, f2, p3]"], intro conjI)
       (fact a, fact len, fact o, fact l4)
qed

text \<open>
  The instance of C3 for the 16-layer preset, on symbols.
\<close>

theorem output_contract_witness:
  "\<exists>out arm odm.
      hybrid_forward sym_engine
        (projr (fst (VGGAtrousExtractor_init [2, 2, 3, 3, 3] [64, 128, 256, 512, 512]
           [[(256, 1, 1, 0), (512, 3, 2, 1)], [(128, 1, 1, 0), (256, 3, 2, 1)]] False 0)))
        (Var ''data'') = Inr out
    \<and> dom out = {''ARM_features'', ''ODM_features''}
    \<and> out ''ARM_features'' = Some (map Some arm) \<and> length arm = 4
    \<and> out ''ODM_features'' = Some (map Some odm) \<and> length odm = 4"
proof -
  let ?c = "VGGAtrousExtractor_init [2, 2, 3, 3, 3] [64, 128, 256, 512, 512]
      [[(256, 1, 1, 0), (512, 3, 2, 1)], [(128, 1, 1, 0), (256, 3, 2, 1)]] False 0"
  let ?net = "projr (fst ?c)"
  have h: "?c = (Inr ?net, snd ?c)"
    by code_simp
  note si = stages_of_init [OF h]
  from si have st: "length (stages ?net) = 6" by simp
  from si have e2: "length (extras ?net) = 2" by simp
  then have ex: "extras ?net \<noteq> []" by (cases "extras ?net") simp_all
  from si have tr: "3 \<le> length (transitions ?net)" and fu: "3 \<le> length (fusions ?net)"
    by simp_all
  from hybrid_forward_total [OF total_sym_engine st ex tr fu, of "Var ''data''"]
  obtain out where f: "hybrid_forward sym_engine ?net (Var ''data'') = Inr out"
    by (elim exE conjE) (rule that)
  from output_contract [OF h f] obtain arm odm where
    d: "dom out = {''ARM_features'', ''ODM_features''}"
    and a: "out ''ARM_features'' = Some (map Some arm)"
    and la: "length arm = 2 + length [[(256, 1, 1, 0), (512, 3, 2, 1)],
        [(128, 1, 1, 0), (256, 3, 2, 1 :: int)] :: (int \<times> int \<times> int \<times> int) list]"
    and o: "out ''ODM_features'' = Some (map Some odm)" and lo: "length odm = 4"
    by (elim exE conjE) (rule that)
  from la have la': "length arm = 4" by simp
  show ?thesis
    by (rule exI [of _ out], rule exI [of _ arm], rule exI [of _ odm], intro conjI)
       (fact f, fact d, fact a, fact la', fact o, fact lo)
qed

text \<open>
  C3 as stated fails for a network with three extra stages: the forward pass succeeds
  and \<open>ARM_features\<close> has 5 entries.
\<close>

theorem output_contract_counterexample:
  "bind_err (fst (VGGAtrousExtractor_init [2, 2, 3, 3, 3] [64, 128, 256, 512, 512]
       [[(256, 1, 1, 0), (512, 3, 2, 1)], [(128, 1, 1, 0), (256, 3, 2, 1)],
        [(128, 1, 1, 0), (256, 3, 2, 1)]] False 0))
     (\<lambda>net. bind_err (hybrid_forward sym_engine net (Var ''data''))
     (\<lambda>out. Inr (map_option length (out ''ARM_features''),
                  map_option length (out ''ODM_features''))))
   = Inr (Some 5, Some 4)"
  by code_simp

text \<open>
  C4. The upsampling used by the top-down fusion is nearest-neighbour replication with
  stride 2: an input of shape \<open>(N, C, H, W)\<close> gives an output of shape
  \<open>(N, C, 2H, 2W)\<close> whose value at \<open>(2i + a, 2j + b)\<close>, for \<open>a, b\<close> in \<open>{0, 1}\<close>, is the
  input's value at \<open>(i, j)\<close>.
\<close>

theorem upsample_nearest_neighbour:
  assumes "has_shape x N C H W"
  shows "\<exists>y. upsample nd_repeat x 2 = Inr y \<and> has_shape y N C (2 * H) (2 * W)
           \<and> (\<forall>n<N. \<forall>c<C. \<forall>i<H. \<forall>j<W. \<forall>a<2. \<forall>b<2.
                 y ! n ! c ! (2 * i + a) ! (2 * j + b) = x ! n ! c ! i ! j)"
proof -
  let ?up = "\<lambda>ch. repeat_list 2 (map (repeat_list 2) ch)"
  let ?y = "map (map ?up) x"
  from assms have shp: "length x = N" "\<And>img. img \<in> set x \<Longrightarrow> length img = C"
    "\<And>img ch. img \<in> set x \<Longrightarrow> ch \<in> set img \<Longrightarrow> length ch = H"
    "\<And>img ch row. img \<in> set x \<Longrightarrow> ch \<in> set img \<Longrightarrow> row \<in> set ch \<Longrightarrow> length row = W"
    by (auto simp: has_shape_def list_all_iff)
  have rows: "length row = 2 * W"
    if "img \<in> set x" "ch \<in> set img" "row \<in> set (?up ch)" for img ch row
  proof -
    from that(3) set_repeat_list [of 2 "map (repeat_list 2) ch"]
    obtain r0 where "r0 \<in> set ch" "row = repeat_list 2 r0" by auto
    with shp(4) [OF that(1,2)] show ?thesis by (simp add: length_repeat_list)
  qed
  have "has_shape ?y N C (2 * H) (2 * W)"
    using shp(1-3) rows by (auto simp: has_shape_def list_all_iff length_repeat_list)
  moreover have "?y ! n ! c ! (2 * i + a) ! (2 * j + b) = x ! n ! c ! i ! j"
    if "n < N" "c < C" "i < H" "j < W" "a < 2" "b < 2" for n c i j a b
  proof -
    have n: "x ! n \<in> set x" using that(1) shp(1) by simp
    then have c: "x ! n ! c \<in> set (x ! n)" using that(2) shp(2) by simp
    have i: "i < length (x ! n ! c)" using shp(3) [OF n c] that(3) by simp
    then have "x ! n ! c ! i \<in> set (x ! n ! c)" by simp
    then have j: "j < length (x ! n ! c ! i)" using shp(4) [OF n c] that(4) by simp
    have "?y ! n ! c = ?up (x ! n ! c)"
      using that(1,2) shp(1) shp(2) [OF n] by simp
    moreover have "?up (x ! n ! c) ! (2 * i + a) = repeat_list 2 (x ! n ! c ! i)"
      using nth_repeat_list [of i "map (repeat_list 2) (x ! n ! c)" a 2] i that(5) by simp
    moreover have "repeat_list 2 (x ! n ! c ! i) ! (2 * j + b) = x ! n ! c ! i ! j"
      using nth_repeat_list [OF j that(6)] .
    ultimately show ?thesis by simp
  qed
  ultimately show ?thesis
    using upsample_nd [of x] by blast
qed

text \<open>
  The instance of C4 for a 2x2 block.
\<close>

theorem upsample_nearest_neighbour_witness:
  "has_shape [[[[1, 2], [3, 4::int]]]] 1 1 2 2
   \<and> upsample nd_repeat [[[[1, 2], [3, 4::int]]]] 2
       = Inr [[[[1, 1, 2, 2], [1, 1, 2, 2], [3, 3, 4, 4], [3, 3, 4, 4]]]]
   \<and> has_shape [[[[1, 1, 2, 2], [1, 1, 2, 2], [3, 3, 4, 4], [3, 3, 4, 4::int]]]] 1 1 4 4
   \<and> [[[[1, 1, 2, 2], [1, 1, 2, 2], [3, 3, 4, 4], [3, 3, 4, 4::int]]]] ! 0 ! 0 ! 3 ! 1
       = [[[[1, 2], [3, 4::int]]]] ! 0 ! 0 ! 1 ! 0"
proof -
  let ?x = "[[[[1, 2], [3, 4::int]]]]"
  let ?Y = "[[[[1, 1, 2, 2], [1, 1, 2, 2], [3, 3, 4, 4], [3, 3, 4, 4::int]]]]"
  have h: "has_shape ?x 1 1 2 2"
    by code_simp
  have e: "upsample nd_repeat ?x 2 = Inr ?Y"
    by code_simp
  have "\<exists>y. upsample nd_repeat ?x 2 = Inr y \<and> has_shape y 1 1 (2 * 2) (2 * 2)
           \<and> (\<forall>n<1. \<forall>c<1. \<forall>i<2. \<forall>j<2. \<forall>a<2. \<forall>b<2.
                 y ! n ! c ! (2 * i + a) ! (2 * j + b) = ?x ! n ! c ! i ! j)"
    by (rule upsample_nearest_neighbour [OF h])
  then obtain y where yall: "upsample nd_repeat ?x 2 = Inr y \<and> has_shape y 1 1 (2 * 2) (2 * 2)
           \<and> (\<forall>n<1. \<forall>c<1. \<forall>i<2. \<forall>j<2. \<forall>a<2. \<forall>b<2.
                 y ! n ! c ! (2 * i + a) ! (2 * j + b) = ?x ! n ! c ! i ! j)" ..
  from yall have y: "upsample nd_repeat ?x 2 = Inr y" by (rule conjunct1)
  from yall have s: "has_shape y 1 1 (2 * 2) (2 * 2)" by (rule conjunct1 [OF conjunct2])
  from yall have v: "\<forall>n<1. \<forall>c<1. \<forall>i<2. \<forall>j<2. \<forall>a<2. \<forall>b<2.
                 y ! n ! c ! (2 * i + a) ! (2 * j + b) = ?x ! n ! c ! i ! j"
    by (rule conjunct2 [OF conjunct2])
  have "Inr y = (Inr ?Y :: error + int list list list list)"
    using y e by (rule trans [OF sym])
  then have yY: "y = ?Y" by (rule Inr_inject)
  have lt: "(0::nat) < 1" "(1::nat) < 2" "(0::nat) < 2" by simp_all
  have "y ! 0 ! 0 ! (2 * 1 + 1) ! (2 * 0 + 1) = ?x ! 0 ! 0 ! 1 ! 0"
    by (rule v [rule_format, OF lt(1) lt(1) lt(2) lt(3) lt(2) lt(2)])
  then have v3: "?Y ! 0 ! 0 ! 3 ! 1 = ?x ! 0 ! 0 ! 1 ! 0"
    unfolding yY by simp
  have "2 * 2 = (4::nat)" by simp
  with s have s4: "has_shape ?Y 1 1 4 4" unfolding yY by (simp only:)
  show ?thesis
    by (intro conjI h e s4 v3)
qed

text \<open>
  C5. Each of the 3 transition branches is a 3x3 stride-1 padding-1 convolution to 256
  channels, a batch normalisation if \<open>batch_norm\<close>, a \<open>relu\<close>, a second such
  convolution and a batch normalisation if \<open>batch_norm\<close>, and nothing after it; the
  branches share no layer.
\<close>

theorem transition_branches:
  assumes "VGGAtrousExtractor_init layers filters extras_cfg batch_norm n = (Inr net, n')"
  shows "length (transitions net) = 3
       \<and> (\<forall>i<3. map snd (transitions net ! i) =
            (if batch_norm
             then [Conv2D trans_conv, BatchNorm, Activation ''relu'', Conv2D trans_conv, BatchNorm]
             else [Conv2D trans_conv, Activation ''relu'', Conv2D trans_conv]))
       \<and> trans_conv = \<lparr>channels = 256, kernel_size = (3, 3), strides = (1, 1),
                        padding = (1, 1), dilation = (1, 1)\<rparr>
       \<and> distinct (map fst (concat (transitions net)))"
proof -
  from extractor_init_Inr [OF assms] obtain m where
    t: "transitions net = fst ((add_transition batch_norm ^^ 3) ([], m))" by blast
  have c: "trans_conv = \<lparr>channels = 256, kernel_size = (3, 3), strides = (1, 1),
                        padding = (1, 1), dilation = (1, 1)\<rparr>"
    by (simp add: trans_conv_def tup_def)
  have "\<forall>i<3. map snd (transitions net ! i) =
            (if batch_norm
             then [Conv2D trans_conv, BatchNorm, Activation ''relu'', Conv2D trans_conv, BatchNorm]
             else [Conv2D trans_conv, Activation ''relu'', Conv2D trans_conv])"
  proof (intro allI impI)
    fix i :: nat assume "i < 3"
    then consider "i = 0" | "i = 1" | "i = 2" by linarith
    then show "map snd (transitions net ! i) =
            (if batch_norm
             then [Conv2D trans_conv, BatchNorm, Activation ''relu'', Conv2D trans_conv, BatchNorm]
             else [Conv2D trans_conv, Activation ''relu'', Conv2D trans_conv])"
      by cases (simp_all add: t transitions_built)
  qed
  moreover have "length (transitions net) = 3"
    by (simp add: t transitions_built)
  moreover have "distinct (map fst (concat (transitions net)))"
    by (simp add: t transitions_built)
  ultimately show ?thesis using c by blast
qed

text \<open>
  The instance of C5 for the 16-layer preset without batch normalisation.
\<close>

theorem transition_branches_witness:
  "length (transitions (projr (fst (VGGAtrousExtractor_init [2, 2, 3, 3, 3]
      [64, 128, 256, 512, 512]
      [[(256, 1, 1, 0), (512, 3, 2, 1)], [(128, 1, 1, 0), (256, 3, 2, 1)]] False 0)))) = 3
   \<and> map snd (transitions (projr (fst (VGGAtrousExtractor_init [2, 2, 3, 3, 3]
      [64, 128, 256, 512, 512]
      [[(256, 1, 1, 0), (512, 3, 2, 1)], [(128, 1, 1, 0), (256, 3, 2, 1)]] False 0))) ! 2)
      = [Conv2D trans_conv, Activation ''relu'', Conv2D trans_conv]"
proof -
  let ?c = "VGGAtrousExtractor_init [2, 2, 3, 3, 3] [64, 128, 256, 512, 512]
      [[(256, 1, 1, 0), (512, 3, 2, 1)], [(128, 1, 1, 0), (256, 3, 2, 1)]] False 0"
  have h: "?c = (Inr (projr (fst ?c)), snd ?c)"
    by code_simp
  have lt: "(2::nat) < 3" by simp
  note t = transition_branches [OF h]
  from t have 1: "length (transitions (projr (fst ?c))) = 3"
    by (rule conjunct1)
  from t have "\<forall>i<3. map snd (transitions (projr (fst ?c)) ! i) =
            (if False
             then [Conv2D trans_conv, BatchNorm, Activation ''relu'', Conv2D trans_conv, BatchNorm]
             else [Conv2D trans_conv, Activation ''relu'', Conv2D trans_conv])"
    by (rule conjunct1 [OF conjunct2])
  from this [rule_format, OF lt]
  have 2: "map snd (transitions (projr (fst ?c)) ! 2)
      = [Conv2D trans_conv, Activation ''relu'', Conv2D trans_conv]"
    by (simp only: if_False)
  show ?thesis by (rule conjI [OF 1 2])
qed

text \<open>
  C6. When \<open>layers\<close> and \<open>filters\<close> differ in length, constructing \<open>VGGAtrousBase\<close>, and
  hence \<open>VGGAtrousExtractor\<close>, fails on the length assertion before any layer is built or
  parameter allocated: the count of created objects is the one the constructor started
  with. The configuration error of the specification is Python's \<open>AssertionError\<close>.
\<close>

theorem mismatched_lengths_raise:
  assumes "length layers \<noteq> length filters"
  shows "VGGAtrousBase_init layers filters batch_norm n = (Inl AssertionError, n)
       \<and> VGGAtrousExtractor_init layers filters extras_cfg batch_norm n = (Inl AssertionError, n)"
  using assms by (simp add: VGGAtrousBase_init_def VGGAtrousExtractor_init_def)

text \<open>
  The instance of C6 for five layer counts and four filter counts.
\<close>

theorem mismatched_lengths_raise_witness:
  "length [2, 2, 3, 3, 3 :: int] \<noteq> length [64, 128, 256, 512 :: int]
   \<and> VGGAtrousBase_init [2, 2, 3, 3, 3] [64, 128, 256, 512] False 0 = (Inl AssertionError, 0)
   \<and> VGGAtrousExtractor_init [2, 2, 3, 3, 3] [64, 128, 256, 512]
        [[(256, 1, 1, 0), (512, 3, 2, 1)], [(128, 1, 1, 0), (256, 3, 2, 1)]] False 0
      = (Inl AssertionError, 0)"
proof -
  have h: "length [2, 2, 3, 3, 3 :: int] \<noteq> length [64, 128, 256, 512 :: int]" by simp
  show ?thesis
    by (rule conjI [OF h mismatched_lengths_raise [OF h]])
qed

text \<open>
  C7, as amended. The forward pass first scales the input by \<open>init_scale\<close> and then
  asserts that the network has exactly 6 base stages, before any stage is run. The
  constructor builds \<open>len(layers)\<close> stages and the dilated one, so the assertion holds
  exactly for the configurations with 5 layer counts, among them the four presets; for
  any other count the forward pass fails: with the \<open>AssertionError\<close> if the scaling
  succeeded, with the scaling's own error otherwise.
\<close>

theorem stage_count_assertion:
  assumes "VGGAtrousExtractor_init layers filters extras_cfg batch_norm n = (Inr net, n')"
  shows "length (stages net) = length layers + 1
       \<and> (length layers = 5 \<longrightarrow>
            hybrid_forward F net x =
              bind_err (broadcast_mul F x (param_data F (init_scale net))) (\<lambda>x0.
              bind_err (arm_features F net x0) (\<lambda>arm.
              bind_err (features_fusion F net arm) (\<lambda>odm.
              Inr [''ARM_features'' \<mapsto> map Some arm, ''ODM_features'' \<mapsto> odm]))))
       \<and> (length layers \<noteq> 5 \<longrightarrow>
            hybrid_forward F net x =
              bind_err (broadcast_mul F x (param_data F (init_scale net)))
                (\<lambda>x0. Inl AssertionError))
       \<and> (num_layers \<in> {11, 13, 16, 19} \<and> im_size \<in> {320, 512} \<longrightarrow>
            (\<exists>net0 m. get_vgg_atrous_extractor num_layers im_size batch_norm n = (Inr net0, m)
               \<and> length (stages net0) = 6))"
proof -
  from stages_of_init [OF assms] have 1: "length (stages net) = length layers + 1" by simp
  have 2: "length layers = 5 \<longrightarrow>
            hybrid_forward F net x =
              bind_err (broadcast_mul F x (param_data F (init_scale net))) (\<lambda>x0.
              bind_err (arm_features F net x0) (\<lambda>arm.
              bind_err (features_fusion F net arm) (\<lambda>odm.
              Inr [''ARM_features'' \<mapsto> map Some arm, ''ODM_features'' \<mapsto> odm])))"
    using 1 by (simp add: hybrid_forward_def)
  have 3: "length layers \<noteq> 5 \<longrightarrow>
            hybrid_forward F net x =
              bind_err (broadcast_mul F x (param_data F (init_scale net)))
                (\<lambda>x0. Inl AssertionError)"
    using 1 by (simp add: hybrid_forward_def)
  have 4: "num_layers \<in> {11, 13, 16, 19} \<and> im_size \<in> {320, 512} \<longrightarrow>
            (\<exists>net0 m. get_vgg_atrous_extractor num_layers im_size batch_norm n = (Inr net0, m)
               \<and> length (stages net0) = 6)"
    using preset_builds [of num_layers im_size batch_norm n] by (intro impI) (elim conjE)
  show ?thesis by (rule conjI [OF 1 conjI [OF 2 conjI [OF 3 4]]])
qed

text \<open>
  The instance of C7 for six layer counts, on symbols, and for the 16-layer preset.
\<close>

theorem stage_count_assertion_witness:
  "length (stages (projr (fst (VGGAtrousExtractor_init [2, 2, 3, 3, 3, 3]
       [64, 128, 256, 512, 512, 512]
       [[(256, 1, 1, 0), (512, 3, 2, 1)], [(128, 1, 1, 0), (256, 3, 2, 1)]] False 0)))) = 7
   \<and> hybrid_forward sym_engine
        (projr (fst (VGGAtrousExtractor_init [2, 2, 3, 3, 3, 3] [64, 128, 256, 512, 512, 512]
           [[(256, 1, 1, 0), (512, 3, 2, 1)], [(128, 1, 1, 0), (256, 3, 2, 1)]] False 0)))
        (Var ''data'') = Inl AssertionError
   \<and> (\<exists>net0 m. get_vgg_atrous_extractor 16 320 False 0 = (Inr net0, m)
         \<and> length (stages net0) = 6)"
proof -
  let ?c = "VGGAtrousExtractor_init [2, 2, 3, 3, 3, 3] [64, 128, 256, 512, 512, 512]
      [[(256, 1, 1, 0), (512, 3, 2, 1)], [(128, 1, 1, 0), (256, 3, 2, 1)]] False 0"
  let ?net = "projr (fst ?c)"
  have h: "?c = (Inr ?net, snd ?c)"
    by code_simp
  note t = stage_count_assertion [OF h, of sym_engine "Var ''data''" 16 320]
  from t have 1: "length (stages ?net) = 7" by simp
  have ne: "length [2, 2, 3, 3, 3, 3 :: int] \<noteq> 5" by simp
  from t have "length [2, 2, 3, 3, 3, 3 :: int] \<noteq> 5 \<longrightarrow>
      hybrid_forward sym_engine ?net (Var ''data'') =
        bind_err (broadcast_mul sym_engine (Var ''data'')
                    (param_data sym_engine (init_scale ?net)))
          (\<lambda>x0. Inl AssertionError)"
    by (rule conjunct1 [OF conjunct2 [OF conjunct2]])
  from this ne have "hybrid_forward sym_engine ?net (Var ''data'') =
        bind_err (broadcast_mul sym_engine (Var ''data'')
                    (param_data sym_engine (init_scale ?net)))
          (\<lambda>x0. Inl AssertionError)"
    by (rule mp)
  then have 2: "hybrid_forward sym_engine ?net (Var ''data'') = Inl AssertionError"
    by (simp add: sym_engine_def)
  have m: "(16::int) \<in> {11, 13, 16, 19} \<and> (320::int) \<in> {320, 512}" by simp
  from t have "(16::int) \<in> {11, 13, 16, 19} \<and> (320::int) \<in> {320, 512} \<longrightarrow>
            (\<exists>net0 m. get_vgg_atrous_extractor 16 320 False 0 = (Inr net0, m)
               \<and> length (stages net0) = 6)"
    by (rule conjunct2 [OF conjunct2 [OF conjunct2]])
  from this m have 3: "\<exists>net0 m. get_vgg_atrous_extractor 16 320 False 0 = (Inr net0, m)
               \<and> length (stages net0) = 6"
    by (rule mp)
  show ?thesis by (rule conjI [OF 1 conjI [OF 2 3]])
qed

text \<open>
  C7 as stated fails: on a network of 7 stages, with an engine that rejects the scaling
  of the input, the forward pass fails with the engine's error, raised before the
  assertion is reached; with an engine that accepts it, the assertion fails.
\<close>

theorem stage_assertion_counterexample:
  "bind_err (fst (VGGAtrousExtractor_init [2, 2, 3, 3, 3, 3] [64, 128, 256, 512, 512, 512]
       [[(256, 1, 1, 0), (512, 3, 2, 1)], [(128, 1, 1, 0), (256, 3, 2, 1)]] False 0))
     (\<lambda>net. Inr (length (stages net),
                  map_sum id (\<lambda>out. ()) (hybrid_forward rejecting_engine net (Var ''data'')),
                  map_sum id (\<lambda>out. ()) (hybrid_forward sym_engine net (Var ''data''))))
   = Inr (7, Inl (MXNetError ''broadcast_mul''), Inl AssertionError)"
  by code_simp

text \<open>
  C9. The extra-stage presets for sizes 320 and 512 are the same, so for the same
  \<open>num_layers\<close> and \<open>batch_norm\<close> the two factories build the same network; its two
  extra stages are a 1x1 convolution to 256 channels then a 3x3 stride-2 padding-1
  convolution to 512, and a 1x1 convolution to 128 channels then a 3x3 stride-2 padding-1
  convolution to 256.
\<close>

theorem extra_presets_identical:
  "extra_spec 320 = extra_spec 512
   \<and> get_vgg_atrous_extractor num_layers 320 batch_norm n
       = get_vgg_atrous_extractor num_layers 512 batch_norm n
   \<and> vgg16_atrous_320 batch_norm n = vgg16_atrous_512 batch_norm n
   \<and> (\<exists>net n'. vgg16_atrous_320 batch_norm n = (Inr net, n')
        \<and> map (map snd) (extras net) =
           (if batch_norm then
             [[Conv2D \<lparr>channels = 256, kernel_size = (1, 1), strides = (1, 1), padding = (0, 0),
                       dilation = (1, 1)\<rparr>, BatchNorm, Activation ''relu'',
               Conv2D \<lparr>channels = 512, kernel_size = (3, 3), strides = (2, 2), padding = (1, 1),
                       dilation = (1, 1)\<rparr>, BatchNorm, Activation ''relu''],
              [Conv2D \<lparr>channels = 128, kernel_size = (1, 1), strides = (1, 1), padding = (0, 0),
                       dilation = (1, 1)\<rparr>, BatchNorm, Activation ''relu'',
               Conv2D \<lparr>channels = 256, kernel_size = (3, 3), strides = (2, 2), padding = (1, 1),
                       dilation = (1, 1)\<rparr>, BatchNorm, Activation ''relu'']]
            else
             [[Conv2D \<lparr>channels = 256, kernel_size = (1, 1), strides = (1, 1), padding = (0, 0),
                       dilation = (1, 1)\<rparr>, Activation ''relu'',
               Conv2D \<lparr>channels = 512, kernel_size = (3, 3), strides = (2, 2), padding = (1, 1),
                       dilation = (1, 1)\<rparr>, Activation ''relu''],
              [Conv2D \<lparr>channels = 128, kernel_size = (1, 1), strides = (1, 1), padding = (0, 0),
                       dilation = (1, 1)\<rparr>, Activation ''relu'',
               Conv2D \<lparr>channels = 256, kernel_size = (3, 3), strides = (2, 2), padding = (1, 1),
                       dilation = (1, 1)\<rparr>, Activation ''relu'']]))"
proof -
  let ?ex = "[[(256, 1, 1, 0), (512, 3, 2, 1)], [(128, 1, 1, 0), (256, 3, 2, 1)]]
               :: (int \<times> int \<times> int \<times> int) list list"
  have s: "extra_spec 320 = Some ?ex" "extra_spec 512 = Some ?ex"
    by (simp_all add: extra_spec_def)
  have 1: "extra_spec 320 = extra_spec 512" by (simp only: s)
  have 2: "get_vgg_atrous_extractor num_layers 320 batch_norm n
       = get_vgg_atrous_extractor num_layers 512 batch_norm n"
    by (simp only: get_vgg_atrous_extractor_def s)
  have 3: "vgg16_atrous_320 batch_norm n = vgg16_atrous_512 batch_norm n"
    by (simp only: vgg16_atrous_320_def vgg16_atrous_512_def get_vgg_atrous_extractor_def s)
  have v: "vgg_spec 16 = Some ([2, 2, 3, 3, 3], [64, 128, 256, 512, 512])"
    by (simp add: vgg_spec_def)
  have g: "vgg16_atrous_320 batch_norm n =
      VGGAtrousExtractor_init [2, 2, 3, 3, 3] [64, 128, 256, 512, 512] ?ex batch_norm n"
    by (simp add: vgg16_atrous_320_def get_vgg_atrous_extractor_def v s)
  obtain net n' where c: "VGGAtrousExtractor_init [2, 2, 3, 3, 3] [64, 128, 256, 512, 512] ?ex
      batch_norm n = (Inr net, n')"
    using extractor_init_ok [of "[2, 2, 3, 3, 3]" "[64, 128, 256, 512, 512]" ?ex batch_norm n]
    by auto
  from extractor_init_Inr [OF c] obtain n1 where
    e: "extras net = fst (build_extras ?ex batch_norm ([], n1))" by blast
  have m: "map (map snd) (extras net) =
      map (\<lambda>cfg. concat (map (\<lambda>c. conv_unit batch_norm (extra_conv c)) cfg)) ?ex"
    unfolding e using build_extras_blocks [of ?ex batch_norm "[]" n1] by simp
  let ?arch = "(if batch_norm then
             [[Conv2D \<lparr>channels = 256, kernel_size = (1, 1), strides = (1, 1), padding = (0, 0),
                       dilation = (1, 1)\<rparr>, BatchNorm, Activation ''relu'',
               Conv2D \<lparr>channels = 512, kernel_size = (3, 3), strides = (2, 2), padding = (1, 1),
                       dilation = (1, 1)\<rparr>, BatchNorm, Activation ''relu''],
              [Conv2D \<lparr>channels = 128, kernel_size = (1, 1), strides = (1, 1), padding = (0, 0),
                       dilation = (1, 1)\<rparr>, BatchNorm, Activation ''relu'',
               Conv2D \<lparr>channels = 256, kernel_size = (3, 3), strides = (2, 2), padding = (1, 1),
                       dilation = (1, 1)\<rparr>, BatchNorm, Activation ''relu'']]
            else
             [[Conv2D \<lparr>channels = 256, kernel_size = (1, 1), strides = (1, 1), padding = (0, 0),
                       dilation = (1, 1)\<rparr>, Activation ''relu'',
               Conv2D \<lparr>channels = 512, kernel_size = (3, 3), strides = (2, 2), padding = (1, 1),
                       dilation = (1, 1)\<rparr>, Activation ''relu''],
              [Conv2D \<lparr>channels = 128, kernel_size = (1, 1), strides = (1, 1), padding = (0, 0),
                       dilation = (1, 1)\<rparr>, Activation ''relu'',
               Conv2D \<lparr>channels = 256, kernel_size = (3, 3), strides = (2, 2), padding = (1, 1),
                       dilation = (1, 1)\<rparr>, Activation ''relu'']])"
  from m have 4: "map (map snd) (extras net) = ?arch"
    by (simp add: conv_unit_def extra_conv_def tup_def)
  from g c have 6: "vgg16_atrous_320 batch_norm n = (Inr net, n')" by simp
  show ?thesis
    by (intro conjI exI [of _ net] exI [of _ n']) (fact 1, fact 2, fact 3, fact 6, fact 4)
qed

text \<open>
  C10, as amended. Whenever the forward pass succeeds, on any engine, \<open>ARM_features\<close>
  has one entry per extra stage after the two normalised ones and \<open>ODM_features\<close> has 4
  entries, so both have 4 exactly when there are 2 extra stages; there is then at least
  one extra stage, and the fusion has read \<open>ARM_features\<close> at \<open>-1\<close> (for
  \<open>last_layer_trans\<close>), 2, 1 and 0 (for the three transitions), never at 3. On 6 base
  stages and an engine whose operators do not raise, the pass succeeds whenever there is
  at least one extra stage. With no extra stage the pass runs \<open>last_layer_trans\<close> on the
  last ARM feature and then raises \<open>IndexError\<close>: the read at \<open>-1\<close> succeeds and the read
  at 2 is out of range.
\<close>

theorem extras_count_and_fusion_reads:
  assumes "VGGAtrousExtractor_init layers filters extras_cfg batch_norm n = (Inr net, n')"
  shows "(\<forall>out. hybrid_forward F net x = Inr out \<longrightarrow>
            (\<exists>arm odm a_last a2 a1 a0 p3 p2 p1 p0 f0 f1 f2.
                out ''ARM_features'' = Some (map Some arm)
              \<and> length arm = 2 + length extras_cfg
              \<and> out ''ODM_features'' = Some (map Some odm) \<and> length odm = 4
              \<and> ((length arm = 4 \<and> length odm = 4) = (length extras_cfg = 2))
              \<and> extras_cfg \<noteq> []
              \<and> getitem arm (- 1) = Inr a_last \<and> getitem arm 2 = Inr a2
              \<and> getitem arm 1 = Inr a1 \<and> getitem arm 0 = Inr a0
              \<and> seq_forward F (last_layer_trans net) a_last = Inr p3
              \<and> ele_sum F (transitions net ! 2) p3 a2 = Inr p2
              \<and> ele_sum F (transitions net ! 1) p2 a1 = Inr p1
              \<and> ele_sum F (transitions net ! 0) p1 a0 = Inr p0
              \<and> seq_forward F (fusions net ! 0) p0 = Inr f0
              \<and> seq_forward F (fusions net ! 1) p1 = Inr f1
              \<and> seq_forward F (fusions net ! 2) p2 = Inr f2
              \<and> odm = [f0, f1, f2, p3]))
       \<and> (length layers = 5 \<and> total_engine F \<and> extras_cfg \<noteq> [] \<longrightarrow>
            (\<exists>out. hybrid_forward F net x = Inr out))
       \<and> (extras_cfg = [] \<longrightarrow>
            hybrid_forward F net x =
              bind_err (broadcast_mul F x (param_data F (init_scale net))) (\<lambda>x0.
                if length (stages net) \<noteq> 6 then Inl AssertionError
                else bind_err (arm_features F net x0) (\<lambda>arm.
                     bind_err (seq_forward F (last_layer_trans net) (last arm))
                       (\<lambda>p3. Inl IndexError)))
          \<and> (\<forall>x0 arm. length (stages net) = 6 \<and> arm_features F net x0 = Inr arm \<longrightarrow>
                 getitem arm (- 1) = Inr (last arm) \<and> getitem arm 2 = Inl IndexError)
          \<and> (length layers = 5 \<and> total_engine F \<longrightarrow>
                 hybrid_forward F net x = Inl IndexError))"
proof -
  note si = stages_of_init [OF assms]
  from si have sl: "length (stages net) = length layers + 1" by simp
  from si have le: "length (extras net) = length extras_cfg" by simp
  from si have tr: "3 \<le> length (transitions net)" and fu: "3 \<le> length (fusions net)"
    by simp_all
  have A: "\<forall>out. hybrid_forward F net x = Inr out \<longrightarrow>
            (\<exists>arm odm a_last a2 a1 a0 p3 p2 p1 p0 f0 f1 f2.
                out ''ARM_features'' = Some (map Some arm)
              \<and> length arm = 2 + length extras_cfg
              \<and> out ''ODM_features'' = Some (map Some odm) \<and> length odm = 4
              \<and> ((length arm = 4 \<and> length odm = 4) = (length extras_cfg = 2))
              \<and> extras_cfg \<noteq> []
              \<and> getitem arm (- 1) = Inr a_last \<and> getitem arm 2 = Inr a2
              \<and> getitem arm 1 = Inr a1 \<and> getitem arm 0 = Inr a0
              \<and> seq_forward F (last_layer_trans net) a_last = Inr p3
              \<and> ele_sum F (transitions net ! 2) p3 a2 = Inr p2
              \<and> ele_sum F (transitions net ! 1) p2 a1 = Inr p1
              \<and> ele_sum F (transitions net ! 0) p1 a0 = Inr p0
              \<and> seq_forward F (fusions net ! 0) p0 = Inr f0
              \<and> seq_forward F (fusions net ! 1) p1 = Inr f1
              \<and> seq_forward F (fusions net ! 2) p2 = Inr f2
              \<and> odm = [f0, f1, f2, p3])"
  proof (intro allI impI)
    fix out assume ok: "hybrid_forward F net x = Inr out"
    from hybrid_forward_Inr [OF ok] obtain x0 arm odm0 where
      f0: "broadcast_mul F x (param_data F (init_scale net)) = Inr x0
         \<and> length (stages net) = 6 \<and> arm_features F net x0 = Inr arm
         \<and> features_fusion F net arm = Inr odm0
         \<and> out = [''ARM_features'' \<mapsto> map Some arm, ''ODM_features'' \<mapsto> odm0]"
      by (elim exE) (rule that)
    then have f: "length (stages net) = 6" "arm_features F net x0 = Inr arm"
         "features_fusion F net arm = Inr odm0"
         "out = [''ARM_features'' \<mapsto> map Some arm, ''ODM_features'' \<mapsto> odm0]"
      by simp_all
    from arm_features_length [OF f(2) f(1)] le
    have la: "length arm = 2 + length extras_cfg" by simp
    from features_fusion_Inr [OF f(3)] obtain p3 p2 p1 p0 f0 f1 f2 where
      g0: "3 \<le> length arm \<and> 3 \<le> length (transitions net) \<and> 3 \<le> length (fusions net)
           \<and> seq_forward F (last_layer_trans net) (last arm) = Inr p3
           \<and> ele_sum F (transitions net ! 2) p3 (arm ! 2) = Inr p2
           \<and> ele_sum F (transitions net ! 1) p2 (arm ! 1) = Inr p1
           \<and> ele_sum F (transitions net ! 0) p1 (arm ! 0) = Inr p0
           \<and> seq_forward F (fusions net ! 0) p0 = Inr f0
           \<and> seq_forward F (fusions net ! 1) p1 = Inr f1
           \<and> seq_forward F (fusions net ! 2) p2 = Inr f2
           \<and> odm0 = [Some f0, Some f1, Some f2, Some p3]"
      by (elim exE) (rule that)
    then have g: "3 \<le> length arm"
         "seq_forward F (last_layer_trans net) (last arm) = Inr p3"
         "ele_sum F (transitions net ! 2) p3 (arm ! 2) = Inr p2"
         "ele_sum F (transitions net ! 1) p2 (arm ! 1) = Inr p1"
         "ele_sum F (transitions net ! 0) p1 (arm ! 0) = Inr p0"
         "seq_forward F (fusions net ! 0) p0 = Inr f0"
         "seq_forward F (fusions net ! 1) p1 = Inr f1"
         "seq_forward F (fusions net ! 2) p2 = Inr f2"
         "odm0 = [Some f0, Some f1, Some f2, Some p3]"
      by simp_all
    note r0 = getitem_reads [OF g(1)]
    from r0 have r: "getitem arm (- 1) = Inr (last arm)" "getitem arm 2 = Inr (arm ! 2)"
        "getitem arm 1 = Inr (arm ! 1)" "getitem arm 0 = Inr (arm ! 0)"
      by simp_all
    let ?odm = "[f0, f1, f2, p3]"
    have a: "out ''ARM_features'' = Some (map Some arm)"
      by (simp add: f(4))
    have o: "out ''ODM_features'' = Some (map Some ?odm)"
      by (simp add: f(4) g(9))
    have lo: "length ?odm = 4" by simp
    have eq: "(length arm = 4 \<and> length ?odm = 4) = (length extras_cfg = 2)"
      using la by auto
    have ne: "extras_cfg \<noteq> []"
      using la g(1) by (cases extras_cfg) simp_all
    have rf: "?odm = [f0, f1, f2, p3]" by (rule refl)
    show "\<exists>arm odm a_last a2 a1 a0 p3 p2 p1 p0 f0 f1 f2.
                out ''ARM_features'' = Some (map Some arm)
              \<and> length arm = 2 + length extras_cfg
              \<and> out ''ODM_features'' = Some (map Some odm) \<and> length odm = 4
              \<and> ((length arm = 4 \<and> length odm = 4) = (length extras_cfg = 2))
              \<and> extras_cfg \<noteq> []
              \<and> getitem arm (- 1) = Inr a_last \<and> getitem arm 2 = Inr a2
              \<and> getitem arm 1 = Inr a1 \<and> getitem arm 0 = Inr a0
              \<and> seq_forward F (last_layer_trans net) a_last = Inr p3
              \<and> ele_sum F (transitions net ! 2) p3 a2 = Inr p2
              \<and> ele_sum F (transitions net ! 1) p2 a1 = Inr p1
              \<and> ele_sum F (transitions net ! 0) p1 a0 = Inr p0
              \<and> seq_forward F (fusions net ! 0) p0 = Inr f0
              \<and> seq_forward F (fusions net ! 1) p1 = Inr f1
              \<and> seq_forward F (fusions net ! 2) p2 = Inr f2
              \<and> odm = [f0, f1, f2, p3]"
      by (rule exI [of _ arm], rule exI [of _ ?odm], rule exI [of _ "last arm"],
          rule exI [of _ "arm ! 2"], rule exI [of _ "arm ! 1"], rule exI [of _ "arm ! 0"],
          rule exI [of _ p3], rule exI [of _ p2], rule exI [of _ p1], rule exI [of _ p0],
          rule exI [of _ f0], rule exI [of _ f1], rule exI [of _ f2], intro conjI)
         (fact a, fact la, fact o, fact lo, fact eq, fact ne, fact r(1), fact r(2),
          fact r(3), fact r(4), fact g(2), fact g(3), fact g(4), fact g(5), fact g(6),
          fact g(7), fact g(8), fact rf)
  qed
  have B: "length layers = 5 \<and> total_engine F \<and> extras_cfg \<noteq> [] \<longrightarrow>
            (\<exists>out. hybrid_forward F net x = Inr out)"
  proof
    assume h: "length layers = 5 \<and> total_engine F \<and> extras_cfg \<noteq> []"
    from h sl have st: "length (stages net) = 6" by simp
    from h have te: "total_engine F" by simp
    from h le have ne: "extras net \<noteq> []" by (cases "extras net") simp_all
    from hybrid_forward_total [OF te st ne tr fu, of x] obtain arm ts where
      ok: "hybrid_forward F net x =
         Inr [''ARM_features'' \<mapsto> map Some arm, ''ODM_features'' \<mapsto> map Some ts]"
      by (elim exE conjE) (rule that)
    show "\<exists>out. hybrid_forward F net x = Inr out" by (rule exI, rule ok)
  qed
  have C: "extras_cfg = [] \<longrightarrow>
            hybrid_forward F net x =
              bind_err (broadcast_mul F x (param_data F (init_scale net))) (\<lambda>x0.
                if length (stages net) \<noteq> 6 then Inl AssertionError
                else bind_err (arm_features F net x0) (\<lambda>arm.
                     bind_err (seq_forward F (last_layer_trans net) (last arm))
                       (\<lambda>p3. Inl IndexError)))
          \<and> (\<forall>x0 arm. length (stages net) = 6 \<and> arm_features F net x0 = Inr arm \<longrightarrow>
                 getitem arm (- 1) = Inr (last arm) \<and> getitem arm 2 = Inl IndexError)
          \<and> (length layers = 5 \<and> total_engine F \<longrightarrow>
                 hybrid_forward F net x = Inl IndexError)"
  proof
    assume "extras_cfg = []"
    with le have e: "extras net = []" by simp
    note 1 = hybrid_forward_no_extras_eq [OF e, of F x]
    have 2: "\<forall>x0 arm. length (stages net) = 6 \<and> arm_features F net x0 = Inr arm \<longrightarrow>
                 getitem arm (- 1) = Inr (last arm) \<and> getitem arm 2 = Inl IndexError"
    proof (intro allI impI)
      fix x0 arm assume h: "length (stages net) = 6 \<and> arm_features F net x0 = Inr arm"
      then have "length arm = 2 + length (extras net)"
        using arm_features_length [of F net x0 arm] by simp
      with e have "length arm = 2" by simp
      then show "getitem arm (- 1) = Inr (last arm) \<and> getitem arm 2 = Inl IndexError"
        by (rule getitem_two)
    qed
    have 3: "length layers = 5 \<and> total_engine F \<longrightarrow> hybrid_forward F net x = Inl IndexError"
    proof
      assume h: "length layers = 5 \<and> total_engine F"
      from h sl have st: "length (stages net) = 6" by simp
      from h have te: "total_engine F" by simp
      show "hybrid_forward F net x = Inl IndexError"
        by (rule hybrid_forward_no_extras [OF te st e])
    qed
    show "hybrid_forward F net x =
              bind_err (broadcast_mul F x (param_data F (init_scale net))) (\<lambda>x0.
                if length (stages net) \<noteq> 6 then Inl AssertionError
                else bind_err (arm_features F net x0) (\<lambda>arm.
                     bind_err (seq_forward F (last_layer_trans net) (last arm))
                       (\<lambda>p3. Inl IndexError)))
          \<and> (\<forall>x0 arm. length (stages net) = 6 \<and> arm_features F net x0 = Inr arm \<longrightarrow>
                 getitem arm (- 1) = Inr (last arm) \<and> getitem arm 2 = Inl IndexError)
          \<and> (length layers = 5 \<and> total_engine F \<longrightarrow>
                 hybrid_forward F net x = Inl IndexError)"
      by (rule conjI [OF 1 conjI [OF 2 3]])
  qed
  show ?thesis by (rule conjI [OF A conjI [OF B C]])
qed

text \<open>
  The instances of C10 for no extra stage and for one extra stage, on symbols.
\<close>

theorem extras_count_and_fusion_reads_witness:
  "hybrid_forward sym_engine
     (projr (fst (VGGAtrousExtractor_init [2, 2, 3, 3, 3] [64, 128, 256, 512, 512] [] False 0)))
     (Var ''data'') = Inl IndexError
   \<and> (\<exists>out arm odm. hybrid_forward sym_engine
         (projr (fst (VGGAtrousExtractor_init [2, 2, 3, 3, 3] [64, 128, 256, 512, 512]
            [[(256, 1, 1, 0), (512, 3, 2, 1)]] False 0)))
         (Var ''data'') = Inr out
        \<and> out ''ARM_features'' = Some (map Some arm) \<and> length arm = 3
        \<and> out ''ODM_features'' = Some (map Some odm) \<and> length odm = 4
        \<and> getitem arm (- 1) = getitem arm 2)"
proof -
  let ?cfg1 = "[[(256, 1, 1, 0), (512, 3, 2, 1)]] :: (int \<times> int \<times> int \<times> int) list list"
  let ?c0 = "VGGAtrousExtractor_init [2, 2, 3, 3, 3] [64, 128, 256, 512, 512] [] False 0"
  let ?c1 = "VGGAtrousExtractor_init [2, 2, 3, 3, 3] [64, 128, 256, 512, 512] ?cfg1 False 0"
  have h0: "?c0 = (Inr (projr (fst ?c0)), snd ?c0)" by code_simp
  have h1: "?c1 = (Inr (projr (fst ?c1)), snd ?c1)" by code_simp
  have l5: "length [2, 2, 3, 3, 3 :: int] = 5" by simp
  note t0 = extras_count_and_fusion_reads [OF h0, of sym_engine "Var ''data''"]
  note t1 = extras_count_and_fusion_reads [OF h1, of sym_engine "Var ''data''"]
  have g0: "length [2, 2, 3, 3, 3 :: int] = 5 \<and> total_engine sym_engine"
    by (rule conjI [OF l5 total_sym_engine])
  have e0: "([] :: (int \<times> int \<times> int \<times> int) list list) = []" by (rule refl)
  note z = mp [OF conjunct2 [OF conjunct2 [OF t0]] e0]
  note 1 = mp [OF conjunct2 [OF conjunct2 [OF z]] g0]
  have ne: "?cfg1 \<noteq> []" by simp
  have g1: "length [2, 2, 3, 3, 3 :: int] = 5 \<and> total_engine sym_engine \<and> ?cfg1 \<noteq> []"
    by (rule conjI [OF l5 conjI [OF total_sym_engine ne]])
  from conjunct1 [OF conjunct2 [OF t1]] g1
  have "\<exists>out. hybrid_forward sym_engine (projr (fst ?c1)) (Var ''data'') = Inr out"
    by (rule mp)
  then obtain out where f: "hybrid_forward sym_engine (projr (fst ?c1)) (Var ''data'') = Inr out"
    by (elim exE) (rule that)
  from conjunct1 [OF t1, rule_format, OF f] obtain arm odm a_last a2 where
    a: "out ''ARM_features'' = Some (map Some arm)"
    and la: "length arm = 2 + length ?cfg1"
    and o: "out ''ODM_features'' = Some (map Some odm)" and lo: "length odm = 4"
    and r1: "getitem arm (- 1) = Inr a_last" and r2: "getitem arm 2 = Inr a2"
    by (elim exE conjE) (rule that)
  from la have la': "length arm = 3" by simp
  then have "arm \<noteq> []" by (cases arm) simp_all
  then have same: "getitem arm (- 1) = getitem arm 2"
    using la' by (simp add: getitem_last getitem_nonneg last_conv_nth)
  have 2: "\<exists>out arm odm. hybrid_forward sym_engine (projr (fst ?c1)) (Var ''data'') = Inr out
        \<and> out ''ARM_features'' = Some (map Some arm) \<and> length arm = 3
        \<and> out ''ODM_features'' = Some (map Some odm) \<and> length odm = 4
        \<and> getitem arm (- 1) = getitem arm 2"
    by (rule exI [of _ out], rule exI [of _ arm], rule exI [of _ odm], intro conjI)
       (fact f, fact a, fact la', fact o, fact lo, fact same)
  show ?thesis by (rule conjI [OF 1 2])
qed

text \<open>
  C10 as stated fails for a network with one extra stage: the fusion loop reads nothing
  out of range and the forward pass returns 3 ARM features and 4 ODM features.
\<close>

theorem extras_count_counterexample:
  "bind_err (fst (VGGAtrousExtractor_init [2, 2, 3, 3, 3] [64, 128, 256, 512, 512]
       [[(256, 1, 1, 0), (512, 3, 2, 1)]] False 0))
     (\<lambda>net. bind_err (hybrid_forward sym_engine net (Var ''data''))
     (\<lambda>out. Inr (length (extras net), map_option length (out ''ARM_features''),
                  map_option length (out ''ODM_features''))))
   = Inr (1, Some 3, Some 4)"
  by code_simp

end
